theory Spec2Isabelle
  imports Complex_Main
begin

section \<open>Strings\<close>

text \<open>
  A JavaScript string is a sequence of code units; the model uses \<open>string\<close>, whose
  characters are the code units below 256. \<open>startsWith\<close>, \<open>includes\<close> (here \<open>includesStr\<close>) and
  \<open>substring(0, n)\<close> are the methods of \<open>String.prototype\<close> that the services call.
\<close>

definition startsWith :: "string \<Rightarrow> string \<Rightarrow> bool" where
  "startsWith s p = (take (length p) s = p)"

fun includesStr :: "string \<Rightarrow> string \<Rightarrow> bool" where
  "includesStr [] p = (p = [])"
| "includesStr (c # cs) p = (startsWith (c # cs) p \<or> includesStr cs p)"

definition substring0 :: "string \<Rightarrow> nat \<Rightarrow> string" where
  "substring0 s n = take n s"

subsection \<open>The regular expressions of the scanner\<close>

text \<open>
  The three patterns of \<open>scanWebsite\<close> carry the flag \<open>i\<close>: a pattern character matches
  an input character when both have the same canonical (upper-case) form. The patterns
  hold ASCII characters only, and no character outside ASCII has an ASCII canonical form,
  so folding the letters a to z is all that ever decides a comparison.
\<close>

definition canonicalize :: "char \<Rightarrow> char" where
  "canonicalize c =
     (case map_of (zip ''abcdefghijklmnopqrstuvwxyz'' ''ABCDEFGHIJKLMNOPQRSTUVWXYZ'') c of
        Some u \<Rightarrow> u
      | None \<Rightarrow> c)"

text \<open>A literal piece of a pattern, matched at the start of the input: the rest, or no match.\<close>

fun lit :: "string \<Rightarrow> string \<Rightarrow> string option" where
  "lit [] s = Some s"
| "lit (p # ps) [] = None"
| "lit (p # ps) (c # cs) = (if canonicalize c = canonicalize p then lit ps cs else None)"

text \<open>
  \<open>([\s\S]*?)\<close> followed by the rest \<open>k\<close> of the pattern: the lazy star tries the rest first
  and takes one more character only when the rest fails. The result is the captured group
  and what \<open>k\<close> returns.
\<close>

fun lazyAny :: "(string \<Rightarrow> 'a option) \<Rightarrow> string \<Rightarrow> (string \<times> 'a) option" where
  "lazyAny k [] = map_option (Pair []) (k [])"
| "lazyAny k (c # cs) =
     (case k (c # cs) of
        Some r \<Rightarrow> Some ([], r)
      | None \<Rightarrow> map_option (\<lambda>(g, r). (c # g, r)) (lazyAny k cs))"

text \<open>
  \<open>[^>]*\<close> followed by the rest \<open>k\<close> of the pattern: the greedy star takes a character
  first and falls back to the rest of the pattern when the longer attempt fails.
\<close>

fun greedyNotGt :: "(string \<Rightarrow> 'a option) \<Rightarrow> string \<Rightarrow> 'a option" where
  "greedyNotGt k [] = k []"
| "greedyNotGt k (c # cs) =
     (if c \<noteq> CHR ''>''
      then (case greedyNotGt k cs of Some r \<Rightarrow> Some r | None \<Rightarrow> k (c # cs))
      else k (c # cs))"

text \<open>\<open>String.prototype.match\<close> without the flag \<open>g\<close>: the leftmost position that matches.\<close>

fun searchFrom :: "(string \<Rightarrow> 'a option) \<Rightarrow> string \<Rightarrow> 'a option" where
  "searchFrom m [] = m []"
| "searchFrom m (c # cs) = (case m (c # cs) of Some r \<Rightarrow> Some r | None \<Rightarrow> searchFrom m cs)"

text \<open>\<open>String.prototype.trim\<close>: white space and line terminators, on both sides.\<close>

definition isWhiteSpace :: "char \<Rightarrow> bool" where
  "isWhiteSpace c = ((of_char c :: nat) \<in> {9, 10, 11, 12, 13, 32, 160})"

definition trim :: "string \<Rightarrow> string" where
  "trim s = rev (dropWhile isWhiteSpace (rev (dropWhile isWhiteSpace s)))"

section \<open>Data model (types.ts)\<close>

record ScanMetrics =
  url :: string
  statusCode :: "int option"
  responseTimeMs :: "int option"
  headers :: "string \<rightharpoonup> string"
  htmlSnippet :: "string option"
  fetchError :: "string option"

datatype privacy_level = LowConcern | NeedsAttention | HighConcern

record finding =
  summary :: string
  details :: "string list"

record privacy_finding = finding +
  level :: privacy_level

record AIAnalysis =
  healthScore :: int
  seo :: finding
  accessibility :: finding
  privacy :: privacy_finding
  jsErrors :: "finding option"
  recommendations :: "string list"

section \<open>Deterministic scoring engine (geminiService.ts, simulateAnalysis)\<close>

text \<open>
  JavaScript truthiness, as the conditions of \<open>simulateAnalysis\<close> use it: a number or
  null is falsy when it is null or 0, a string or null when it is null or empty.
\<close>

definition falsyNumber :: "int option \<Rightarrow> bool" where
  "falsyNumber v = (case v of None \<Rightarrow> True | Some n \<Rightarrow> n = 0)"

definition falsyString :: "string option \<Rightarrow> bool" where
  "falsyString v = (case v of None \<Rightarrow> True | Some s \<Rightarrow> s = [])"

text \<open>\<open>metrics.htmlSnippet?.includes(p)\<close> used as a condition.\<close>

definition snippetIncludes :: "string option \<Rightarrow> string \<Rightarrow> bool" where
  "snippetIncludes v p = (case v of None \<Rightarrow> False | Some s \<Rightarrow> includesStr s p)"

definition isError :: "ScanMetrics \<Rightarrow> bool" where
  "isError metrics =
     (falsyNumber (statusCode metrics) \<or>
      (case statusCode metrics of None \<Rightarrow> False | Some n \<Rightarrow> n \<ge> 400))"

definition hasLogs :: "string \<Rightarrow> bool" where
  "hasLogs consoleLogs = (length consoleLogs > 0)"

definition isHttps :: "ScanMetrics \<Rightarrow> bool" where
  "isHttps metrics = startsWith (url metrics) ''https''"

text \<open>The score, statement by statement: the deductions of lines 14 to 28.\<close>

definition deducted :: "ScanMetrics \<Rightarrow> string \<Rightarrow> int" where
  "deducted metrics consoleLogs =
     (let s0 = 100;
          s1 = (if \<not> isHttps metrics then s0 - 20 else s0);
          s2 = (if isError metrics
                then (if statusCode metrics \<noteq> None then s1 - 40 else s1 - 15)
                else s1);
          s3 = (if hasLogs consoleLogs then s2 - 15 else s2);
          s4 = (if falsyString (htmlSnippet metrics) then s3 - 10 else s3)
      in s4)"

text \<open>Line 30: \<open>score = Math.max(0, score)\<close>.\<close>

definition score :: "ScanMetrics \<Rightarrow> string \<Rightarrow> int" where
  "score metrics consoleLogs = max 0 (deducted metrics consoleLogs)"

definition failingScripts :: finding where
  "failingScripts =
     \<lparr>summary = ''Some background scripts are failing.'',
      details = [''A feature might be broken'', ''A file failed to load'']\<rparr>"

definition noErrors :: finding where
  "noErrors =
     \<lparr>summary = ''No background errors detected.'',
      details = [''Website code is running smoothly'']\<rparr>"

definition simulateAnalysis :: "ScanMetrics \<Rightarrow> string \<Rightarrow> AIAnalysis" where
  "simulateAnalysis metrics consoleLogs =
     \<lparr>healthScore = score metrics consoleLogs,
      seo =
        \<lparr>summary =
           (if falsyString (htmlSnippet metrics)
            then ''We couldn't read the page details because the site is blocking automated scans. This usually means security is active.''
            else ''The basic setup for Google Search looks correct.''),
         details =
           [if snippetIncludes (htmlSnippet metrics) ''<title>''
            then ''Page title is visible to search engines'' else ''Page title check skipped'',
            if snippetIncludes (htmlSnippet metrics) ''description''
            then ''Summary description found for search results''
            else ''Search summary check skipped'',
            if isHttps metrics then ''Connection is secure (HTTPS)''
            else ''Connection is insecure (HTTP)'',
            ''Search engines understand this is the main page'']\<rparr>,
      accessibility =
        \<lparr>summary =
           (if falsyString (htmlSnippet metrics)
            then ''Visual accessibility check skipped due to security blocks.''
            else ''The code allows screen readers to read the page.''),
         details =
           [''Browser knows which language to display'',
            ''Page structure is readable by machines'',
            ''Images have descriptions for the blind'']\<rparr>,
      privacy =
        \<lparr>summary = ''Privacy basics appear to be in place.'',
         details =
           [''Privacy policy is mentioned on the page'',
            ''No invasive tracking codes found'',
            ''Cookie popup not immediately visible''],
         level = (if score metrics consoleLogs > 80 then LowConcern else NeedsAttention)\<rparr>,
      jsErrors = Some (if hasLogs consoleLogs then failingScripts else noErrors),
      recommendations =
        [if \<not> isHttps metrics
         then ''Switch to HTTPS to protect user passwords and improve Google ranking.''
         else ''Double-check that your SSL security certificate renews automatically.'',
         if \<not> falsyString (fetchError metrics)
         then ''Your site is secure against bots, which is good! Use a server-tool for deeper analysis.''
         else ''Add 'Schema' info so Google can show stars or prices in search results.'',
         ''Ensure your cookie banner is easy to read on mobile phones.'']\<rparr>"

section \<open>The scanner (scanWebsite)\<close>

subsection \<open>URL normalisation (lines 5 to 8)\<close>

text \<open>
  \<open>/^https?:\/\//i.test(url)\<close>: anchored at the start; the optional \<open>s\<close> is tried first,
  and the pattern is tried without it when that fails.
\<close>

definition matched :: "'a option \<Rightarrow> bool" where
  "matched r = (case r of None \<Rightarrow> False | Some _ \<Rightarrow> True)"

definition schemeTest :: "string \<Rightarrow> bool" where
  "schemeTest u =
     (case lit ''http'' u of
        None \<Rightarrow> False
      | Some r \<Rightarrow>
          (case lit ''s'' r of
             Some r' \<Rightarrow> matched (lit ''://'' r') \<or> matched (lit ''://'' r)
           | None \<Rightarrow> matched (lit ''://'' r)))"

definition normalizeUrl :: "string \<Rightarrow> string" where
  "normalizeUrl rawUrl =
     (let u = trim rawUrl in if \<not> schemeTest u then ''https://'' @ u else u)"

subsection \<open>Snippet extraction (lines 33 to 39)\<close>

text \<open>
  A match is the pair of the whole matched text (\<open>match[0]\<close>) and the first group
  (\<open>match[1]\<close>). \<open>headAt\<close> is \<open>/<head>([\s\S]*?)<\/head>/i\<close> tried at one position,
  \<open>bodyAt\<close> is \<open>/<body[^>]*>([\s\S]*?)<\/body>/i\<close> tried at one position.
\<close>

definition headAt :: "string \<Rightarrow> (string \<times> string) option" where
  "headAt s =
     (case lit ''<head>'' s of
        None \<Rightarrow> None
      | Some r \<Rightarrow>
          (case lazyAny (lit ''</head>'') r of
             None \<Rightarrow> None
           | Some (g, rest) \<Rightarrow> Some (take (length s - length rest) s, g)))"

definition bodyAt :: "string \<Rightarrow> (string \<times> string) option" where
  "bodyAt s =
     (case lit ''<body'' s of
        None \<Rightarrow> None
      | Some r \<Rightarrow>
          (case greedyNotGt
                  (\<lambda>r1. case lit ''>'' r1 of
                           None \<Rightarrow> None
                         | Some r2 \<Rightarrow> lazyAny (lit ''</body>'') r2) r of
             None \<Rightarrow> None
           | Some (g, rest) \<Rightarrow> Some (take (length s - length rest) s, g)))"

definition headMatch :: "string \<Rightarrow> (string \<times> string) option" where
  "headMatch text = searchFrom headAt text"

definition bodyMatch :: "string \<Rightarrow> (string \<times> string) option" where
  "bodyMatch text = searchFrom bodyAt text"

definition extractSnippet :: "string \<Rightarrow> string" where
  "extractSnippet text =
     (let snippet0 = [];
          snippet1 = (case headMatch text of
                        Some (m0, g1) \<Rightarrow> snippet0 @ m0
                      | None \<Rightarrow> snippet0);
          snippet2 = (case bodyMatch text of
                        Some (m0, g1) \<Rightarrow> snippet1 @ substring0 g1 1500
                      | None \<Rightarrow> snippet1)
      in if snippet2 = [] then substring0 text 2000 else snippet2)"

subsection \<open>The probe and its error handler\<close>

text \<open>
  What the platform hands to the scanner: \<open>fetch\<close> rejects with an error, or resolves
  with a response whose body \<open>response.text()\<close> then delivers or fails to deliver. With
  a response comes the rounded time \<open>Math.round(endTime - startTime)\<close>. The expiry of the
  4000 ms timer aborts the request, which then fails with an error named \<open>AbortError\<close>.
\<close>

record js_error =
  name :: string
  message :: string

datatype body_outcome = BodyText string | BodyRejects js_error

record response =
  resp_status :: int
  resp_headers :: "(string \<times> string) list"
  resp_text :: body_outcome

datatype fetch_outcome = FetchRejects js_error | FetchResolves response int

text \<open>
  \<open>headers[key] = val\<close> on an object created by \<open>{}\<close>, with a string for \<open>val\<close>. The object
  is the map of its own properties. The key \<open>__proto__\<close> is the one accessor that the object
  inherits: the assignment calls its setter, which ignores a string, and no property is
  stored. Every other key becomes, or stays, an own property with the new value.
\<close>

definition assignProperty :: "(string \<rightharpoonup> string) \<Rightarrow> string \<Rightarrow> string \<Rightarrow> (string \<rightharpoonup> string)" where
  "assignProperty obj key val = (if key = ''__proto__'' then obj else obj(key \<mapsto> val))"

text \<open>
  \<open>response.headers.forEach((val, key) => { headers[key] = val })\<close>, over the entries that
  the iteration of the response's headers yields, in its order.
\<close>

definition collectHeaders :: "(string \<times> string) list \<Rightarrow> (string \<rightharpoonup> string)" where
  "collectHeaders entries =
     fold (\<lambda>(key, val) h. assignProperty h key val) entries Map.empty"

text \<open>The body of the \<open>try\<close> block: the metrics, or the error that was thrown.\<close>

definition probe :: "string \<Rightarrow> fetch_outcome \<Rightarrow> js_error + ScanMetrics" where
  "probe u outcome =
     (case outcome of
        FetchRejects e \<Rightarrow> Inl e
      | FetchResolves response elapsed \<Rightarrow>
          (case resp_text response of
             BodyRejects e \<Rightarrow> Inl e
           | BodyText text \<Rightarrow>
               Inr \<lparr>url = u,
                    statusCode = Some (resp_status response),
                    responseTimeMs = Some elapsed,
                    headers = collectHeaders (resp_headers response),
                    htmlSnippet = Some (extractSnippet text),
                    fetchError = None\<rparr>))"

text \<open>
  The whole function: the result of the promise, \<open>Inr\<close> when it resolves and \<open>Inl\<close> when
  it rejects. The \<open>catch\<close> block turns every error of the \<open>try\<close> block into metrics.
\<close>

definition scanWebsite :: "string \<Rightarrow> fetch_outcome \<Rightarrow> js_error + ScanMetrics" where
  "scanWebsite rawUrl outcome =
     (let u = normalizeUrl rawUrl in
      case probe u outcome of
        Inr metrics \<Rightarrow> Inr metrics
      | Inl error \<Rightarrow>
          (let isAbort = (name error = ''AbortError'') in
           Inr \<lparr>url = u,
                statusCode = None,
                responseTimeMs = None,
                headers = Map.empty,
                htmlSnippet = None,
                fetchError =
                  Some (if isAbort then ''Connection Timeout''
                        else if message error \<noteq> [] then message error
                        else ''Network/CORS Error'')\<rparr>))"

section \<open>The enrichment orchestrator (analyzeWithGemini)\<close>

text \<open>
  \<open>JSON.parse(response.text) as AIAnalysis\<close> is a cast, so what the function returns at run
  time is a JSON value. The object that \<open>simulateAnalysis\<close> builds is the JSON value
  \<open>analysisJson\<close> of its record.
\<close>

datatype json =
  JNull | JBool bool | JNum rat | JStr string | JArr "json list" | JObj "(string \<times> json) list"

definition findingJson :: "finding \<Rightarrow> json" where
  "findingJson f =
     JObj [(''summary'', JStr (summary f)), (''details'', JArr (map JStr (details f)))]"

definition levelString :: "privacy_level \<Rightarrow> string" where
  "levelString l =
     (case l of LowConcern \<Rightarrow> ''Low concern''
      | NeedsAttention \<Rightarrow> ''Needs attention''
      | HighConcern \<Rightarrow> ''High concern'')"

definition privacyJson :: "privacy_finding \<Rightarrow> json" where
  "privacyJson f =
     JObj [(''summary'', JStr (summary f)), (''details'', JArr (map JStr (details f))),
           (''level'', JStr (levelString (level f)))]"

definition analysisJson :: "AIAnalysis \<Rightarrow> json" where
  "analysisJson a =
     JObj [(''healthScore'', JNum (of_int (healthScore a))),
           (''seo'', findingJson (seo a)),
           (''accessibility'', findingJson (accessibility a)),
           (''privacy'', privacyJson (privacy a)),
           (''jsErrors'', (case jsErrors a of None \<Rightarrow> JNull | Some f \<Rightarrow> findingJson f)),
           (''recommendations'', JArr (map JStr (recommendations a)))]"

text \<open>The shape of \<open>AIAnalysis\<close> in types.ts, as a test on a JSON value.\<close>

definition isStringArray :: "json \<Rightarrow> bool" where
  "isStringArray j =
     (case j of JArr xs \<Rightarrow> list_all (\<lambda>x. case x of JStr _ \<Rightarrow> True | _ \<Rightarrow> False) xs
      | _ \<Rightarrow> False)"

definition hasString :: "(string \<times> json) list \<Rightarrow> string \<Rightarrow> bool" where
  "hasString fs k = (case map_of fs k of Some (JStr _) \<Rightarrow> True | _ \<Rightarrow> False)"

definition hasStringArray :: "(string \<times> json) list \<Rightarrow> string \<Rightarrow> bool" where
  "hasStringArray fs k = (case map_of fs k of Some j \<Rightarrow> isStringArray j | None \<Rightarrow> False)"

definition isFinding :: "json \<Rightarrow> bool" where
  "isFinding j =
     (case j of JObj fs \<Rightarrow> hasString fs ''summary'' \<and> hasStringArray fs ''details''
      | _ \<Rightarrow> False)"

definition isPrivacyFinding :: "json \<Rightarrow> bool" where
  "isPrivacyFinding j =
     (case j of
        JObj fs \<Rightarrow>
          hasString fs ''summary'' \<and> hasStringArray fs ''details'' \<and>
          (case map_of fs ''level'' of
             Some (JStr l) \<Rightarrow> l \<in> set [''Low concern'', ''Needs attention'', ''High concern'']
           | _ \<Rightarrow> False)
      | _ \<Rightarrow> False)"

definition isAIAnalysis :: "json \<Rightarrow> bool" where
  "isAIAnalysis j =
     (case j of
        JObj fs \<Rightarrow>
          (case map_of fs ''healthScore'' of
             Some (JNum q) \<Rightarrow> q = of_int \<lfloor>q\<rfloor>
           | _ \<Rightarrow> False) \<and>
          (case map_of fs ''seo'' of Some f \<Rightarrow> isFinding f | None \<Rightarrow> False) \<and>
          (case map_of fs ''accessibility'' of Some f \<Rightarrow> isFinding f | None \<Rightarrow> False) \<and>
          (case map_of fs ''privacy'' of Some f \<Rightarrow> isPrivacyFinding f | None \<Rightarrow> False) \<and>
          (case map_of fs ''jsErrors'' of
             Some f \<Rightarrow> f = JNull \<or> isFinding f
           | None \<Rightarrow> False) \<and>
          hasStringArray fs ''recommendations''
      | _ \<Rightarrow> False)"

text \<open>
  How the race \<open>Promise.race([apiCall, timeoutPromise])\<close> settles: the 15000 ms timer
  rejects first, or the remote call rejects first, or the remote call fulfils first with a
  response (or with nothing), whose \<open>text\<close> is a string or undefined.
\<close>

record ai_response =
  ai_text :: "string option"

datatype race_outcome = TimeoutFirst | ApiRejects string | ApiFulfils "ai_response option"

datatype failure = TimedOut | Rejected string | EmptyResponse | SyntaxError

text \<open>
  The body of the \<open>try\<close> block (lines 128 to 185). \<open>JSON.parse\<close> belongs to the platform,
  not to this repository: it is the parameter \<open>parse\<close>, \<open>None\<close> when it throws.
\<close>

definition remoteAttempt :: "(string \<Rightarrow> json option) \<Rightarrow> race_outcome \<Rightarrow> failure + json" where
  "remoteAttempt parse outcome =
     (case outcome of
        TimeoutFirst \<Rightarrow> Inl TimedOut
      | ApiRejects reason \<Rightarrow> Inl (Rejected reason)
      | ApiFulfils response \<Rightarrow>
          (case response of
             None \<Rightarrow> Inl EmptyResponse
           | Some r \<Rightarrow>
               (case ai_text r of
                  None \<Rightarrow> Inl EmptyResponse
                | Some t \<Rightarrow>
                    if t = [] then Inl EmptyResponse
                    else (case parse t of None \<Rightarrow> Inl SyntaxError | Some v \<Rightarrow> Inr v))))"

text \<open>
  The whole function; \<open>apiKey\<close> is \<open>process.env.API_KEY\<close>. The result is that of the promise:
  \<open>Inr\<close> when it resolves, \<open>Inl\<close> when it rejects.
\<close>

definition analyzeWithGemini ::
  "(string \<Rightarrow> json option) \<Rightarrow> string option \<Rightarrow> race_outcome \<Rightarrow> ScanMetrics \<Rightarrow> string
     \<Rightarrow> failure + json" where
  "analyzeWithGemini parse apiKey outcome metrics consoleLogs =
     (if falsyString apiKey then Inr (analysisJson (simulateAnalysis metrics consoleLogs))
      else (case remoteAttempt parse outcome of
              Inr v \<Rightarrow> Inr v
            | Inl error \<Rightarrow> Inr (analysisJson (simulateAnalysis metrics consoleLogs))))"

section \<open>The specification's notions\<close>

text \<open>
  The definitions of this section follow the words of the specification, not the code:
  they are what the theorems below compare the code with.
\<close>

text \<open>
  The deduction table as the specification words it: 20 when the URL does not start with
  \<open>https\<close>, 40 when the status code is present and at least 400, 15 when it is absent, 15 when
  the logs are not empty, 10 when the snippet is absent; the result floored at 0.
\<close>

definition claimedScore :: "ScanMetrics \<Rightarrow> string \<Rightarrow> int" where
  "claimedScore m L =
     max 0 (100 -
       ((if startsWith (url m) ''https'' then 0 else 20) +
        (case statusCode m of None \<Rightarrow> 15 | Some n \<Rightarrow> if n \<ge> 400 then 40 else 0) +
        (if L = [] then 0 else 15) +
        (if htmlSnippet m = None then 10 else 0)))"

text \<open>A string begins with a prefix, letter case aside.\<close>

definition beginsWithCI :: "string \<Rightarrow> string \<Rightarrow> bool" where
  "beginsWithCI s p = (map canonicalize (take (length p) s) = map canonicalize p)"

text \<open>
  A \<open><head>...</head>\<close> region of a text: \<open>pre\<close> is what precedes it, \<open>blk\<close> the block with
  its tags, \<open>inner\<close> the content between the tags. A \<open><body ...>...</body>\<close> region has
  attributes, free of \<open>>\<close>, between \<open><body\<close> and the \<open>>\<close> that ends the opening tag.
\<close>

definition isHeadRegion :: "string \<Rightarrow> string \<Rightarrow> string \<Rightarrow> string \<Rightarrow> bool" where
  "isHeadRegion text pre blk inner =
     (\<exists>otag ctag post.
        text = pre @ blk @ post \<and> blk = otag @ inner @ ctag \<and>
        map canonicalize otag = map canonicalize ''<head>'' \<and>
        map canonicalize ctag = map canonicalize ''</head>'')"

definition isBodyRegion :: "string \<Rightarrow> string \<Rightarrow> string \<Rightarrow> string \<Rightarrow> bool" where
  "isBodyRegion text pre blk inner =
     (\<exists>otag attrs ctag post.
        text = pre @ blk @ post \<and> blk = otag @ attrs @ ''>'' @ inner @ ctag \<and>
        map canonicalize otag = map canonicalize ''<body'' \<and> CHR ''>'' \<notin> set attrs \<and>
        map canonicalize ctag = map canonicalize ''</body>'')"


text \<open>
  The first region of a text: none begins further left, and none that begins at the same
  place is shorter (the non-greedy choice).
\<close>

definition firstRegion :: "(string \<Rightarrow> string \<Rightarrow> string \<Rightarrow> bool) \<Rightarrow> string \<Rightarrow> string \<Rightarrow> bool" where
  "firstRegion R blk inner =
     (\<exists>pre. R pre blk inner \<and>
        (\<forall>pre' blk' inner'. R pre' blk' inner' \<longrightarrow>
           length pre \<le> length pre' \<and>
           (length pre' = length pre \<longrightarrow> length blk \<le> length blk')))"

text \<open>A report whose narrative fields are populated: no empty summary, list or entry.\<close>

definition populatedFinding :: "'a finding_scheme \<Rightarrow> bool" where
  "populatedFinding f =
     (summary f \<noteq> [] \<and> details f \<noteq> [] \<and> list_all (\<lambda>d. d \<noteq> []) (details f))"

definition populated :: "AIAnalysis \<Rightarrow> bool" where
  "populated a =
     (populatedFinding (seo a) \<and> populatedFinding (accessibility a) \<and>
      populatedFinding (privacy a) \<and>
      recommendations a \<noteq> [] \<and> list_all (\<lambda>r. r \<noteq> []) (recommendations a))"

text \<open>
  The same two properties read off a JSON value, as a caller reads the fields of the
  object it receives: the score is a number between 0 and 100; \<open>seo\<close>, \<open>accessibility\<close> and
  \<open>privacy\<close> have a summary that is a text and not empty and details that are a list, not
  empty, of texts that are not empty; so are the recommendations.
\<close>

definition jsonField :: "json \<Rightarrow> string \<Rightarrow> json option" where
  "jsonField j k = (case j of JObj fs \<Rightarrow> map_of fs k | _ \<Rightarrow> None)"

definition scoreInRange :: "json \<Rightarrow> bool" where
  "scoreInRange j =
     (case jsonField j ''healthScore'' of Some (JNum q) \<Rightarrow> 0 \<le> q \<and> q \<le> 100 | _ \<Rightarrow> False)"

definition nonEmptyText :: "json \<Rightarrow> bool" where
  "nonEmptyText j = (case j of JStr t \<Rightarrow> t \<noteq> [] | _ \<Rightarrow> False)"

definition nonEmptyTexts :: "json \<Rightarrow> bool" where
  "nonEmptyTexts j = (case j of JArr xs \<Rightarrow> xs \<noteq> [] \<and> list_all nonEmptyText xs | _ \<Rightarrow> False)"

definition populatedGroup :: "json option \<Rightarrow> bool" where
  "populatedGroup g =
     (case g of
        None \<Rightarrow> False
      | Some j \<Rightarrow>
          (case jsonField j ''summary'' of None \<Rightarrow> False | Some t \<Rightarrow> nonEmptyText t) \<and>
          (case jsonField j ''details'' of None \<Rightarrow> False | Some d \<Rightarrow> nonEmptyTexts d))"

definition populatedJson :: "json \<Rightarrow> bool" where
  "populatedJson j =
     (populatedGroup (jsonField j ''seo'') \<and>
      populatedGroup (jsonField j ''accessibility'') \<and>
      populatedGroup (jsonField j ''privacy'') \<and>
      (case jsonField j ''recommendations'' of None \<Rightarrow> False | Some r \<Rightarrow> nonEmptyTexts r))"

text \<open>
  A JSON value read back as the record of types.ts, field by field; \<open>None\<close> when a field is
  missing or of another type.
\<close>

definition readTexts :: "json option \<Rightarrow> string list option" where
  "readTexts g =
     (case g of
        Some (JArr xs) \<Rightarrow>
          if list_all (\<lambda>x. case x of JStr _ \<Rightarrow> True | _ \<Rightarrow> False) xs
          then Some (map (\<lambda>x. case x of JStr t \<Rightarrow> t | _ \<Rightarrow> []) xs)
          else None
      | _ \<Rightarrow> None)"

definition readText :: "json option \<Rightarrow> string option" where
  "readText g = (case g of Some (JStr t) \<Rightarrow> Some t | _ \<Rightarrow> None)"

definition readFinding :: "json option \<Rightarrow> finding option" where
  "readFinding g =
     (case g of
        None \<Rightarrow> None
      | Some j \<Rightarrow>
          (case readText (jsonField j ''summary'') of
             None \<Rightarrow> None
           | Some t \<Rightarrow>
               (case readTexts (jsonField j ''details'') of
                  None \<Rightarrow> None
                | Some ds \<Rightarrow> Some \<lparr>summary = t, details = ds\<rparr>)))"

definition readLevel :: "json option \<Rightarrow> privacy_level option" where
  "readLevel g =
     (case readText g of
        None \<Rightarrow> None
      | Some t \<Rightarrow>
          if t = ''Low concern'' then Some LowConcern
          else if t = ''Needs attention'' then Some NeedsAttention
          else if t = ''High concern'' then Some HighConcern
          else None)"

definition readPrivacy :: "json option \<Rightarrow> privacy_finding option" where
  "readPrivacy g =
     (case g of
        None \<Rightarrow> None
      | Some j \<Rightarrow>
          (case readFinding g of
             None \<Rightarrow> None
           | Some f \<Rightarrow>
               (case readLevel (jsonField j ''level'') of
                  None \<Rightarrow> None
                | Some l \<Rightarrow> Some \<lparr>summary = summary f, details = details f, level = l\<rparr>)))"

definition readScore :: "json option \<Rightarrow> int option" where
  "readScore g =
     (case g of
        Some (JNum q) \<Rightarrow> if q = of_int \<lfloor>q\<rfloor> then Some \<lfloor>q\<rfloor> else None
      | _ \<Rightarrow> None)"

definition readJsErrors :: "json option \<Rightarrow> finding option option" where
  "readJsErrors g =
     (case g of
        None \<Rightarrow> None
      | Some JNull \<Rightarrow> Some None
      | Some j \<Rightarrow> map_option Some (readFinding g))"

definition readAnalysis :: "json \<Rightarrow> AIAnalysis option" where
  "readAnalysis j =
     (case readScore (jsonField j ''healthScore'') of None \<Rightarrow> None | Some n \<Rightarrow>
      case readFinding (jsonField j ''seo'') of None \<Rightarrow> None | Some s \<Rightarrow>
      case readFinding (jsonField j ''accessibility'') of None \<Rightarrow> None | Some a \<Rightarrow>
      case readPrivacy (jsonField j ''privacy'') of None \<Rightarrow> None | Some p \<Rightarrow>
      case readJsErrors (jsonField j ''jsErrors'') of None \<Rightarrow> None | Some e \<Rightarrow>
      case readTexts (jsonField j ''recommendations'') of None \<Rightarrow> None | Some r \<Rightarrow>
        Some \<lparr>healthScore = n, seo = s, accessibility = a, privacy = p, jsErrors = e,
              recommendations = r\<rparr>)"

section \<open>Lemmas on the regular expressions\<close>

lemma lit_Some: "lit p s = Some r \<Longrightarrow> \<exists>x. s = x @ r \<and> map canonicalize x = map canonicalize p"
proof (induction p s rule: lit.induct)
  case (1 s)
  then show ?case by simp
next
  case (2 p ps)
  then show ?case by simp
next
  case (3 p ps c cs)
  then have eq: "canonicalize c = canonicalize p" and rec: "lit ps cs = Some r"
    by (auto split: if_splits)
  from "3.IH"[OF eq rec] obtain x where "cs = x @ r" "map canonicalize x = map canonicalize ps"
    by blast
  then have "c # cs = (c # x) @ r \<and> map canonicalize (c # x) = map canonicalize (p # ps)"
    using eq by simp
  then show ?case by blast
qed

lemma lit_complete: "map canonicalize x = map canonicalize p \<Longrightarrow> lit p (x @ r) = Some r"
proof (induction p arbitrary: x)
  case Nil
  then show ?case by simp
next
  case (Cons a p)
  then obtain c cs where x: "x = c # cs" by (cases x) auto
  with Cons show ?case by simp
qed

lemma lazyAny_Some:
  "lazyAny k s = Some (g, v) \<Longrightarrow>
     \<exists>rest. s = g @ rest \<and> k rest = Some v \<and> (\<forall>j<length g. k (drop j s) = None)"
proof (induction s arbitrary: g)
  case Nil
  then show ?case by auto
next
  case (Cons c cs)
  show ?case
  proof (cases "k (c # cs)")
    case (Some r)
    with Cons.prems show ?thesis by auto
  next
    case None
    with Cons.prems obtain g' where g: "g = c # g'" and rec: "lazyAny k cs = Some (g', v)"
      by (auto split: option.splits)
    from Cons.IH[OF rec] obtain rest where
      r: "cs = g' @ rest" "k rest = Some v" "\<forall>j<length g'. k (drop j cs) = None"
      by blast
    have "\<forall>j<length g. k (drop j (c # cs)) = None"
    proof (intro allI impI)
      fix j assume "j < length g"
      then show "k (drop j (c # cs)) = None"
        using None r(3) g by (cases j) auto
    qed
    with r g show ?thesis by auto
  qed
qed

lemma lazyAny_None: "lazyAny k (g @ rest) = None \<Longrightarrow> k rest = None"
proof (induction g)
  case Nil
  then show ?case by (cases rest) (auto split: option.splits)
next
  case (Cons c g)
  then show ?case by (auto split: option.splits)
qed

lemma greedyNotGt_Some:
  "greedyNotGt k s = Some v \<Longrightarrow> \<exists>a rest. s = a @ rest \<and> CHR ''>'' \<notin> set a \<and> k rest = Some v"
proof (induction s)
  case Nil
  then show ?case by auto
next
  case (Cons c cs)
  show ?case
  proof (cases "c \<noteq> CHR ''>'' \<and> greedyNotGt k cs \<noteq> None")
    case True
    with Cons.prems have "greedyNotGt k cs = Some v" by auto
    from Cons.IH[OF this] obtain a rest where "cs = a @ rest" "CHR ''>'' \<notin> set a" "k rest = Some v"
      by blast
    with True have "c # cs = (c # a) @ rest \<and> CHR ''>'' \<notin> set (c # a) \<and> k rest = Some v"
      by auto
    then show ?thesis by blast
  next
    case False
    with Cons.prems have "k (c # cs) = Some v" by (auto split: if_splits option.splits)
    then have "c # cs = [] @ (c # cs) \<and> CHR ''>'' \<notin> set [] \<and> k (c # cs) = Some v" by simp
    then show ?thesis by blast
  qed
qed

lemma greedyNotGt_None:
  "greedyNotGt k (a @ rest) = None \<Longrightarrow> CHR ''>'' \<notin> set a \<Longrightarrow> k rest = None"
proof (induction a)
  case Nil
  then show ?case by (cases rest) (auto split: option.splits if_splits)
next
  case (Cons c a)
  then show ?case by (auto split: option.splits if_splits)
qed

lemma searchFrom_Some:
  "searchFrom m s = Some v \<Longrightarrow>
     \<exists>pre rest. s = pre @ rest \<and> m rest = Some v \<and> (\<forall>j<length pre. m (drop j s) = None)"
proof (induction s)
  case Nil
  then show ?case by auto
next
  case (Cons c cs)
  show ?case
  proof (cases "m (c # cs)")
    case (Some r)
    with Cons.prems have "c # cs = [] @ (c # cs) \<and> m (c # cs) = Some v \<and> (\<forall>j<length ([]::string). m (drop j (c # cs)) = None)"
      by auto
    then show ?thesis by blast
  next
    case None
    with Cons.prems have rec: "searchFrom m cs = Some v" by simp
    from Cons.IH[OF rec] obtain pre rest where
      r: "cs = pre @ rest" "m rest = Some v" "\<forall>j<length pre. m (drop j cs) = None"
      by blast
    have "\<forall>j<length (c # pre). m (drop j (c # cs)) = None"
    proof (intro allI impI)
      fix j assume "j < length (c # pre)"
      then show "m (drop j (c # cs)) = None"
        using None r(3) by (cases j) auto
    qed
    with r have "c # cs = (c # pre) @ rest \<and> m rest = Some v \<and> (\<forall>j<length (c # pre). m (drop j (c # cs)) = None)"
      by simp
    then show ?thesis by blast
  qed
qed

lemma searchFrom_None: "searchFrom m (pre @ rest) = None \<Longrightarrow> m rest = None"
proof (induction pre)
  case Nil
  then show ?case by (cases rest) (auto split: option.splits)
next
  case (Cons c pre)
  then show ?case by (auto split: option.splits)
qed


lemma headAt_Some:
  assumes "headAt s = Some (blk, g)"
  shows "\<exists>otag ctag post.
           s = blk @ post \<and> blk = otag @ g @ ctag \<and>
           map canonicalize otag = map canonicalize ''<head>'' \<and>
           map canonicalize ctag = map canonicalize ''</head>'' \<and>
           (\<forall>j<length g. lit ''</head>'' (drop j (g @ ctag @ post)) = None)"
proof -
  from assms obtain r rest where
    l1: "lit ''<head>'' s = Some r" and
    l2: "lazyAny (lit ''</head>'') r = Some (g, rest)" and
    blk: "blk = take (length s - length rest) s"
    by (auto simp: headAt_def split: option.splits)
  from lit_Some[OF l1] obtain otag where
    o: "s = otag @ r" "map canonicalize otag = map canonicalize ''<head>''" by blast
  from lazyAny_Some[OF l2] obtain r' where
    g: "r = g @ r'" "lit ''</head>'' r' = Some rest" "\<forall>j<length g. lit ''</head>'' (drop j r) = None"
    by blast
  from lit_Some[OF g(2)] obtain ctag where
    c: "r' = ctag @ rest" "map canonicalize ctag = map canonicalize ''</head>''" by blast
  have s: "s = (otag @ g @ ctag) @ rest" using o g c by simp
  then have b: "blk = otag @ g @ ctag" using blk by simp
  have "\<forall>j<length g. lit ''</head>'' (drop j (g @ ctag @ rest)) = None"
    using g(1,3) c(1) by simp
  with s b o(2) c(2) show ?thesis by blast
qed

lemma headAt_complete:
  assumes "map canonicalize otag = map canonicalize ''<head>''"
    and "map canonicalize ctag = map canonicalize ''</head>''"
  shows "headAt (otag @ inner @ ctag @ post) \<noteq> None"
proof -
  have l1: "lit ''<head>'' (otag @ inner @ ctag @ post) = Some (inner @ ctag @ post)"
    using lit_complete[OF assms(1)] by simp
  have "lit ''</head>'' (ctag @ post) = Some post"
    using lit_complete[OF assms(2)] by simp
  then have "lazyAny (lit ''</head>'') (inner @ ctag @ post) \<noteq> None"
    using lazyAny_None[of "lit ''</head>''" inner "ctag @ post"] by fastforce
  with l1 show ?thesis by (auto simp: headAt_def split: option.splits)
qed

lemma gt_canonical: "canonicalize c = canonicalize (CHR ''>'') \<Longrightarrow> c = CHR ''>''"
  by (auto simp: canonicalize_def split: if_splits)

lemma bodyAt_Some:
  assumes "bodyAt s = Some (blk, g)"
  shows "\<exists>otag attrs ctag post.
           s = blk @ post \<and> blk = otag @ attrs @ ''>'' @ g @ ctag \<and>
           map canonicalize otag = map canonicalize ''<body'' \<and> CHR ''>'' \<notin> set attrs \<and>
           map canonicalize ctag = map canonicalize ''</body>'' \<and>
           (\<forall>j<length g. lit ''</body>'' (drop j (g @ ctag @ post)) = None)"
proof -
  let ?K = "\<lambda>r1. case lit ''>'' r1 of None \<Rightarrow> None | Some r2 \<Rightarrow> lazyAny (lit ''</body>'') r2"
  from assms obtain r rest where
    l1: "lit ''<body'' s = Some r" and
    l2: "greedyNotGt ?K r = Some (g, rest)" and
    blk: "blk = take (length s - length rest) s"
    by (auto simp: bodyAt_def split: option.splits)
  from lit_Some[OF l1] obtain otag where
    o: "s = otag @ r" "map canonicalize otag = map canonicalize ''<body''" by blast
  from greedyNotGt_Some[OF l2] obtain attrs r1 where
    a: "r = attrs @ r1" "CHR ''>'' \<notin> set attrs" "?K r1 = Some (g, rest)" by blast
  from a(3) obtain r2 where
    l3: "lit ''>'' r1 = Some r2" and l4: "lazyAny (lit ''</body>'') r2 = Some (g, rest)"
    by (auto split: option.splits)
  from lit_Some[OF l3] obtain x where x: "r1 = x @ r2" "map canonicalize x = map canonicalize ''>''"
    by blast
  from x(2) have "x = ''>''" by (cases x) (auto dest: gt_canonical)
  from lazyAny_Some[OF l4] obtain r' where
    g: "r2 = g @ r'" "lit ''</body>'' r' = Some rest" "\<forall>j<length g. lit ''</body>'' (drop j r2) = None"
    by blast
  from lit_Some[OF g(2)] obtain ctag where
    c: "r' = ctag @ rest" "map canonicalize ctag = map canonicalize ''</body>''" by blast
  have s: "s = (otag @ attrs @ ''>'' @ g @ ctag) @ rest"
    using o a x \<open>x = ''>''\<close> g c by simp
  then have b: "blk = otag @ attrs @ ''>'' @ g @ ctag" using blk by simp
  have "\<forall>j<length g. lit ''</body>'' (drop j (g @ ctag @ rest)) = None"
    using g(1,3) c(1) by simp
  with s b o(2) a(2) c(2) show ?thesis by blast
qed

lemma bodyAt_complete:
  assumes "map canonicalize otag = map canonicalize ''<body''"
    and "CHR ''>'' \<notin> set attrs"
    and "map canonicalize ctag = map canonicalize ''</body>''"
  shows "bodyAt (otag @ attrs @ ''>'' @ inner @ ctag @ post) \<noteq> None"
proof -
  let ?K = "\<lambda>r1. case lit ''>'' r1 of None \<Rightarrow> None | Some r2 \<Rightarrow> lazyAny (lit ''</body>'') r2"
  have l1: "lit ''<body'' (otag @ attrs @ ''>'' @ inner @ ctag @ post)
              = Some (attrs @ ''>'' @ inner @ ctag @ post)"
    using lit_complete[OF assms(1)] by simp
  have "lit ''</body>'' (ctag @ post) = Some post"
    using lit_complete[OF assms(3)] by simp
  then have "lazyAny (lit ''</body>'') (inner @ ctag @ post) \<noteq> None"
    using lazyAny_None[of "lit ''</body>''" inner "ctag @ post"] by fastforce
  then have k: "?K (''>'' @ inner @ ctag @ post) \<noteq> None"
    by simp
  have "greedyNotGt ?K (attrs @ ''>'' @ inner @ ctag @ post) \<noteq> None"
  proof
    assume "greedyNotGt ?K (attrs @ ''>'' @ inner @ ctag @ post) = None"
    from greedyNotGt_None[OF this assms(2)] k show False by simp
  qed
  with l1 show ?thesis by (auto simp: bodyAt_def split: option.splits)
qed


lemma tag_length: "map canonicalize x = map canonicalize p \<Longrightarrow> length x = length p"
  by (rule map_eq_imp_length_eq)

lemma first_occurrence:
  "x \<notin> set a \<Longrightarrow> x \<notin> set a' \<Longrightarrow> a @ x # r = a' @ x # r' \<Longrightarrow> a = a' \<and> r = r'"
proof (induction a arbitrary: a')
  case Nil
  then show ?case by (cases a') auto
next
  case (Cons y a)
  then show ?case by (cases a') auto
qed

lemma lazy_first:
  assumes none: "\<forall>j<length g. lit t (drop j (g @ c @ post)) = None"
    and eq: "g @ c @ post = g' @ c' @ post'"
    and tag: "map canonicalize c' = map canonicalize t"
  shows "length g \<le> length g'"
proof (rule ccontr)
  assume "\<not> length g \<le> length g'"
  then have "lit t (drop (length g') (g @ c @ post)) = None" using none by simp
  moreover have "drop (length g') (g @ c @ post) = c' @ post'" using eq by simp
  ultimately show False using lit_complete[OF tag, of post'] by simp
qed

lemma headMatch_Some:
  assumes "headMatch text = Some (blk, g)"
  shows "\<exists>pre. isHeadRegion text pre blk g \<and>
           (\<forall>pre' blk' g'. isHeadRegion text pre' blk' g' \<longrightarrow>
              length pre \<le> length pre' \<and> (length pre' = length pre \<longrightarrow> length blk \<le> length blk'))"
proof -
  from assms have "searchFrom headAt text = Some (blk, g)" by (simp add: headMatch_def)
  from searchFrom_Some[OF this] obtain pre rest where
    t: "text = pre @ rest" and at: "headAt rest = Some (blk, g)" and
    left: "\<forall>j<length pre. headAt (drop j text) = None" by blast
  from headAt_Some[OF at] obtain otag ctag post where
    r: "rest = blk @ post" "blk = otag @ g @ ctag"
       "map canonicalize otag = map canonicalize ''<head>''"
       "map canonicalize ctag = map canonicalize ''</head>''"
       "\<forall>j<length g. lit ''</head>'' (drop j (g @ ctag @ post)) = None" by blast
  have reg: "isHeadRegion text pre blk g"
    unfolding isHeadRegion_def using t r(1-4) by blast
  have best: "length pre \<le> length pre' \<and> (length pre' = length pre \<longrightarrow> length blk \<le> length blk')"
    if other: "isHeadRegion text pre' blk' g'" for pre' blk' g'
  proof -
    from other obtain otag' ctag' post' where
      o: "text = pre' @ blk' @ post'" "blk' = otag' @ g' @ ctag'"
         "map canonicalize otag' = map canonicalize ''<head>''"
         "map canonicalize ctag' = map canonicalize ''</head>''"
      unfolding isHeadRegion_def by blast
    have "drop (length pre') text = otag' @ g' @ ctag' @ post'" using o(1,2) by simp
    then have "headAt (drop (length pre') text) \<noteq> None"
      using headAt_complete[OF o(3,4)] by simp
    then have le: "length pre \<le> length pre'" using left by (meson not_le)
    have "length blk \<le> length blk'" if same: "length pre' = length pre"
    proof -
      from same t o(1) have "pre' = pre" "rest = blk' @ post'" by auto
      then have eq: "otag @ g @ ctag @ post = otag' @ g' @ ctag' @ post'"
        using r(1,2) o(2) by simp
      have lo: "length otag = length otag'"
        using tag_length[OF r(3)] tag_length[OF o(3)] by simp
      with eq have "g @ ctag @ post = g' @ ctag' @ post'" by simp
      from lazy_first[OF r(5) this o(4)] have "length g \<le> length g'" .
      moreover have "length ctag = length ctag'"
        using tag_length[OF r(4)] tag_length[OF o(4)] by simp
      ultimately show ?thesis using lo r(2) o(2) by simp
    qed
    with le show ?thesis by blast
  qed
  from reg best show ?thesis by blast
qed

lemma headMatch_None:
  assumes "headMatch text = None"
  shows "\<not> isHeadRegion text pre blk g"
proof
  assume "isHeadRegion text pre blk g"
  then obtain otag ctag post where
    o: "text = pre @ blk @ post" "blk = otag @ g @ ctag"
       "map canonicalize otag = map canonicalize ''<head>''"
       "map canonicalize ctag = map canonicalize ''</head>''"
    unfolding isHeadRegion_def by blast
  from assms have "searchFrom headAt (pre @ (blk @ post)) = None"
    using o(1) by (simp add: headMatch_def)
  from searchFrom_None[OF this] have "headAt (otag @ g @ ctag @ post) = None"
    using o(2) by simp
  with headAt_complete[OF o(3,4)] show False by blast
qed

lemma bodyMatch_Some:
  assumes "bodyMatch text = Some (blk, g)"
  shows "\<exists>pre. isBodyRegion text pre blk g \<and>
           (\<forall>pre' blk' g'. isBodyRegion text pre' blk' g' \<longrightarrow>
              length pre \<le> length pre' \<and> (length pre' = length pre \<longrightarrow> length blk \<le> length blk'))"
proof -
  from assms have "searchFrom bodyAt text = Some (blk, g)" by (simp add: bodyMatch_def)
  from searchFrom_Some[OF this] obtain pre rest where
    t: "text = pre @ rest" and at: "bodyAt rest = Some (blk, g)" and
    left: "\<forall>j<length pre. bodyAt (drop j text) = None" by blast
  from bodyAt_Some[OF at] obtain otag attrs ctag post where
    r: "rest = blk @ post" "blk = otag @ attrs @ ''>'' @ g @ ctag"
       "map canonicalize otag = map canonicalize ''<body''" "CHR ''>'' \<notin> set attrs"
       "map canonicalize ctag = map canonicalize ''</body>''"
       "\<forall>j<length g. lit ''</body>'' (drop j (g @ ctag @ post)) = None" by blast
  have reg: "isBodyRegion text pre blk g"
    unfolding isBodyRegion_def using t r(1-5) by blast
  have best: "length pre \<le> length pre' \<and> (length pre' = length pre \<longrightarrow> length blk \<le> length blk')"
    if other: "isBodyRegion text pre' blk' g'" for pre' blk' g'
  proof -
    from other obtain otag' attrs' ctag' post' where
      o: "text = pre' @ blk' @ post'" "blk' = otag' @ attrs' @ ''>'' @ g' @ ctag'"
         "map canonicalize otag' = map canonicalize ''<body''" "CHR ''>'' \<notin> set attrs'"
         "map canonicalize ctag' = map canonicalize ''</body>''"
      unfolding isBodyRegion_def by blast
    have "drop (length pre') text = otag' @ attrs' @ ''>'' @ g' @ ctag' @ post'"
      using o(1,2) by simp
    then have "bodyAt (drop (length pre') text) \<noteq> None"
      using bodyAt_complete[OF o(3,4,5)] by simp
    then have le: "length pre \<le> length pre'" using left by (meson not_le)
    have "length blk \<le> length blk'" if same: "length pre' = length pre"
    proof -
      from same t o(1) have "pre' = pre" "rest = blk' @ post'" by auto
      then have eq: "otag @ attrs @ ''>'' @ g @ ctag @ post
                       = otag' @ attrs' @ ''>'' @ g' @ ctag' @ post'"
        using r(1,2) o(2) by simp
      have lo: "length otag = length otag'"
        using tag_length[OF r(3)] tag_length[OF o(3)] by simp
      with eq have "attrs @ CHR ''>'' # (g @ ctag @ post) = attrs' @ CHR ''>'' # (g' @ ctag' @ post')"
        by simp
      then have "attrs = attrs' \<and> g @ ctag @ post = g' @ ctag' @ post'"
        by (rule first_occurrence[OF r(4) o(4)])
      then have aa: "attrs = attrs'" and gg: "g @ ctag @ post = g' @ ctag' @ post'"
        by blast+
      from lazy_first[OF r(6) gg o(5)] have "length g \<le> length g'" .
      moreover have "length ctag = length ctag'"
        using tag_length[OF r(5)] tag_length[OF o(5)] by simp
      ultimately show ?thesis using lo aa r(2) o(2) by simp
    qed
    with le show ?thesis by blast
  qed
  from reg best show ?thesis by blast
qed

lemma bodyMatch_None:
  assumes "bodyMatch text = None"
  shows "\<not> isBodyRegion text pre blk g"
proof
  assume "isBodyRegion text pre blk g"
  then obtain otag attrs ctag post where
    o: "text = pre @ blk @ post" "blk = otag @ attrs @ ''>'' @ g @ ctag"
       "map canonicalize otag = map canonicalize ''<body''" "CHR ''>'' \<notin> set attrs"
       "map canonicalize ctag = map canonicalize ''</body>''"
    unfolding isBodyRegion_def by blast
  from assms have "searchFrom bodyAt (pre @ (blk @ post)) = None"
    using o(1) by (simp add: bodyMatch_def)
  from searchFrom_None[OF this] have "bodyAt (otag @ attrs @ ''>'' @ g @ ctag @ post) = None"
    using o(2) by simp
  with bodyAt_complete[OF o(3,4,5)] show False by blast
qed

lemma lit_append: "lit (p @ q) s = (case lit p s of None \<Rightarrow> None | Some r \<Rightarrow> lit q r)"
  by (induction p s rule: lit.induct) auto

lemma matched_lit: "matched (lit p s) = beginsWithCI s p"
proof
  assume "matched (lit p s)"
  then obtain r where "lit p s = Some r" by (auto simp: matched_def split: option.splits)
  from lit_Some[OF this] obtain x where x: "s = x @ r" "map canonicalize x = map canonicalize p"
    by blast
  then have "take (length p) s = x" using tag_length[OF x(2)] by simp
  with x(2) show "beginsWithCI s p" by (simp add: beginsWithCI_def)
next
  assume "beginsWithCI s p"
  then have "map canonicalize (take (length p) s) = map canonicalize p"
    by (simp add: beginsWithCI_def)
  from lit_complete[OF this, of "drop (length p) s"] show "matched (lit p s)"
    by (simp add: matched_def)
qed

lemma matched_lit_append:
  "matched (lit (p @ q) s) = (case lit p s of None \<Rightarrow> False | Some r \<Rightarrow> matched (lit q r))"
  by (simp add: lit_append matched_def split: option.splits)

lemma schemeTest_iff:
  "schemeTest u = (beginsWithCI u ''http://'' \<or> beginsWithCI u ''https://'')"
proof -
  have a: "beginsWithCI u ''http://'' =
      (case lit ''http'' u of None \<Rightarrow> False | Some r \<Rightarrow> beginsWithCI r ''://'')"
    using matched_lit_append[of "''http''" "''://''" u]
    by (simp add: matched_lit split: option.splits)
  have b1: "beginsWithCI r ''s://'' =
      (case lit ''s'' r of None \<Rightarrow> False | Some r' \<Rightarrow> beginsWithCI r' ''://'')" for r
    using matched_lit_append[of "''s''" "''://''" r]
    by (simp add: matched_lit split: option.splits)
  have b2: "beginsWithCI u ''https://'' =
      (case lit ''http'' u of None \<Rightarrow> False | Some r \<Rightarrow> beginsWithCI r ''s://'')"
    using matched_lit_append[of "''http''" "''s://''" u]
    by (simp add: matched_lit split: option.splits)
  show ?thesis
    unfolding a b2 schemeTest_def by (auto simp: b1 matched_lit split: option.splits)
qed

lemma rev_split:
  "xs = rev (dropWhile P (rev xs)) @ rev (takeWhile P (rev xs))"
proof -
  have e1: "rev (takeWhile P (rev xs) @ dropWhile P (rev xs))
              = rev (dropWhile P (rev xs)) @ rev (takeWhile P (rev xs))"
    by (rule rev_append)
  have e2: "rev (takeWhile P (rev xs) @ dropWhile P (rev xs)) = xs"
    by simp
  show ?thesis by (rule trans[OF sym[OF e2] e1])
qed

lemma trim_decompose:
  "\<exists>l r. s = l @ trim s @ r \<and> list_all isWhiteSpace l \<and> list_all isWhiteSpace r"
proof -
  let ?d = "dropWhile isWhiteSpace s"
  let ?l = "takeWhile isWhiteSpace s"
  let ?r = "rev (takeWhile isWhiteSpace (rev ?d))"
  have d: "?d = trim s @ ?r"
    unfolding trim_def by (rule rev_split)
  have "s = ?l @ ?d" by simp
  with d have "s = ?l @ trim s @ ?r" by simp
  moreover have "list_all isWhiteSpace ?l"
    by (simp add: list_all_iff) (meson set_takeWhileD)
  moreover have "list_all isWhiteSpace ?r"
    by (simp add: list_all_iff) (meson set_takeWhileD)
  ultimately show ?thesis by blast
qed

lemma trim_ends:
  assumes "trim s \<noteq> []"
  shows "\<not> isWhiteSpace (hd (trim s)) \<and> \<not> isWhiteSpace (last (trim s))"
proof -
  let ?d = "dropWhile isWhiteSpace s"
  let ?e = "dropWhile isWhiteSpace (rev ?d)"
  have t: "trim s = rev ?e" by (simp add: trim_def)
  with assms have ne: "?e \<noteq> []" by simp
  then have "\<not> isWhiteSpace (hd ?e)" by (rule hd_dropWhile)
  then have lastok: "\<not> isWhiteSpace (last (trim s))" using t ne by (simp add: last_rev)
  have d: "?d = trim s @ rev (takeWhile isWhiteSpace (rev ?d))"
    unfolding trim_def by (rule rev_split)
  have dne: "?d \<noteq> []" using d assms by (metis append_is_Nil_conv)
  then have "\<not> isWhiteSpace (hd ?d)" by (rule hd_dropWhile)
  moreover have "hd ?d = hd (trim s)" using d assms by (metis hd_append2)
  ultimately show ?thesis using lastok by simp
qed

lemma analysisJson_shape: "isAIAnalysis (analysisJson a)"
proof -
  have f: "isFinding (findingJson x)" for x
    by (simp add: isFinding_def findingJson_def hasString_def hasStringArray_def
        isStringArray_def list_all_iff)
  have p: "isPrivacyFinding (privacyJson x)" for x
    by (cases "level x")
      (simp_all add: isPrivacyFinding_def privacyJson_def hasString_def hasStringArray_def
        isStringArray_def list_all_iff levelString_def)
  show ?thesis
    by (cases "jsErrors a")
      (simp_all add: isAIAnalysis_def analysisJson_def f p hasStringArray_def
        isStringArray_def list_all_iff)
qed

lemma fold_assignProperty:
  "fold (\<lambda>(key, val) h. assignProperty h key val) es h0 k =
     (if k = ''__proto__'' then h0 k
      else (case map_of (rev es) k of None \<Rightarrow> h0 k | Some v \<Rightarrow> Some v))"
proof (induction es arbitrary: h0)
  case Nil
  then show ?case by simp
next
  case (Cons e es)
  obtain key val where e: "e = (key, val)" by (cases e)
  let ?F = "\<lambda>(key, val) h. assignProperty h key val"
  have "fold ?F (e # es) h0 k = fold ?F es (assignProperty h0 key val) k"
    by (simp add: e)
  also have "\<dots> =
     (if k = ''__proto__'' then assignProperty h0 key val k
      else (case map_of (rev es) k of
              None \<Rightarrow> assignProperty h0 key val k
            | Some v \<Rightarrow> Some v))"
    by (rule Cons.IH)
  also have "\<dots> =
     (if k = ''__proto__'' then h0 k
      else (case map_of (rev (e # es)) k of None \<Rightarrow> h0 k | Some v \<Rightarrow> Some v))"
    by (simp add: e assignProperty_def map_add_def split: option.splits)
  finally show ?case .
qed

lemma collectHeaders_lookup:
  "collectHeaders es k = (if k = ''__proto__'' then None else map_of (rev es) k)"
  by (simp add: collectHeaders_def fold_assignProperty split: option.splits)

lemma readTexts_JStr: "readTexts (Some (JArr (map JStr xs))) = Some xs"
proof -
  have "map (\<lambda>x. case x of JStr t \<Rightarrow> t | _ \<Rightarrow> []) (map JStr xs) = xs"
    by (induction xs) simp_all
  then show ?thesis by (simp add: readTexts_def list_all_iff)
qed

lemma readFinding_findingJson: "readFinding (Some (findingJson f)) = Some f"
  by (simp add: readFinding_def findingJson_def jsonField_def readText_def readTexts_JStr)

lemma readPrivacy_privacyJson: "readPrivacy (Some (privacyJson f)) = Some f"
  by (cases "level f")
    (simp_all add: readPrivacy_def readFinding_def privacyJson_def jsonField_def readText_def
      readTexts_JStr readLevel_def levelString_def)

lemma readJsErrors_finding: "readJsErrors (Some (findingJson f)) = Some (Some f)"
  using readFinding_findingJson[of f] by (simp add: readJsErrors_def findingJson_def)

lemma readJsErrors_null: "readJsErrors (Some JNull) = Some None"
  by (simp add: readJsErrors_def)

lemma readAnalysis_analysisJson: "readAnalysis (analysisJson a) = Some a"
proof -
  let ?j = "analysisJson a"
  have n: "readScore (jsonField ?j ''healthScore'') = Some (healthScore a)"
    by (simp add: analysisJson_def jsonField_def readScore_def)
  have s: "readFinding (jsonField ?j ''seo'') = Some (seo a)"
    by (simp add: analysisJson_def jsonField_def readFinding_findingJson)
  have c: "readFinding (jsonField ?j ''accessibility'') = Some (accessibility a)"
    by (simp add: analysisJson_def jsonField_def readFinding_findingJson)
  have p: "readPrivacy (jsonField ?j ''privacy'') = Some (privacy a)"
    by (simp add: analysisJson_def jsonField_def readPrivacy_privacyJson)
  have e: "readJsErrors (jsonField ?j ''jsErrors'') = Some (jsErrors a)"
    by (cases "jsErrors a")
      (simp_all add: analysisJson_def jsonField_def readJsErrors_null readJsErrors_finding)
  have r: "readTexts (jsonField ?j ''recommendations'') = Some (recommendations a)"
    by (simp add: analysisJson_def jsonField_def readTexts_JStr)
  show ?thesis
    by (simp add: readAnalysis_def n s c p e r)
qed

lemma populatedGroup_findingJson:
  "populatedGroup (Some (findingJson f)) = populatedFinding f"
  by (simp add: populatedGroup_def findingJson_def jsonField_def nonEmptyText_def
      nonEmptyTexts_def populatedFinding_def list_all_iff)

lemma populatedGroup_privacyJson:
  "populatedGroup (Some (privacyJson f)) = populatedFinding f"
  by (simp add: populatedGroup_def privacyJson_def jsonField_def nonEmptyText_def
      nonEmptyTexts_def populatedFinding_def list_all_iff)

lemma populatedJson_analysisJson: "populatedJson (analysisJson a) = populated a"
  by (simp add: populatedJson_def analysisJson_def jsonField_def populatedGroup_findingJson
      populatedGroup_privacyJson populated_def nonEmptyTexts_def nonEmptyText_def list_all_iff)

lemma scoreInRange_analysisJson:
  "scoreInRange (analysisJson a) = (0 \<le> healthScore a \<and> healthScore a \<le> 100)"
  by (simp add: scoreInRange_def analysisJson_def jsonField_def)

section \<open>The scoring engine\<close>

lemmas score_defs = simulateAnalysis_def score_def deducted_def isHttps_def isError_def
  hasLogs_def falsyNumber_def falsyString_def startsWith_def

text \<open>
  C1, amended. For every metrics value whose status code is not 0 and every log string,
  the health score is 100 minus the sum of these deductions, floored at 0: 20 when the URL
  does not start with \<open>https\<close>; 40 when the status code is present and at least 400; 15 when
  it is absent; 15 when the logs are not empty; 10 when the snippet is absent or is the
  empty string. The four worked examples of the specification follow: 100, 60, 15 and 85.
\<close>

theorem simulateAnalysis_score:
  assumes "statusCode m \<noteq> Some 0"
  shows "healthScore (simulateAnalysis m L) =
           max 0 (100 -
             ((if startsWith (url m) ''https'' then 0 else 20) +
              (case statusCode m of None \<Rightarrow> 15 | Some n \<Rightarrow> if n \<ge> 400 then 40 else 0) +
              (if L = [] then 0 else 15) +
              (if htmlSnippet m = None \<or> htmlSnippet m = Some [] then 10 else 0)))
         \<and> healthScore (simulateAnalysis
               \<lparr>url = ''https://ok.example'', statusCode = Some 200, responseTimeMs = t,
                headers = h, htmlSnippet = Some ''<html></html>'', fetchError = None\<rparr> []) = 100
         \<and> healthScore (simulateAnalysis
               \<lparr>url = ''https://ok.example'', statusCode = Some 404, responseTimeMs = t,
                headers = h, htmlSnippet = Some ''<html></html>'', fetchError = None\<rparr> []) = 60
         \<and> healthScore (simulateAnalysis
               \<lparr>url = ''http://ok.example'', statusCode = Some 500, responseTimeMs = t,
                headers = h, htmlSnippet = None, fetchError = None\<rparr> ''Uncaught TypeError'') = 15
         \<and> healthScore (simulateAnalysis
               \<lparr>url = ''https://ok.example'', statusCode = None, responseTimeMs = None,
                headers = Map.empty, htmlSnippet = Some ''<html></html>'',
                fetchError = Some ''Failed to fetch''\<rparr> []) = 85"
proof -
  have general: "healthScore (simulateAnalysis m L) =
           max 0 (100 -
             ((if startsWith (url m) ''https'' then 0 else 20) +
              (case statusCode m of None \<Rightarrow> 15 | Some n \<Rightarrow> if n \<ge> 400 then 40 else 0) +
              (if L = [] then 0 else 15) +
              (if htmlSnippet m = None \<or> htmlSnippet m = Some [] then 10 else 0)))"
    using assms by (auto simp: score_defs split: option.splits)
  show ?thesis
    by (rule conjI[OF general]) (simp add: score_defs)
qed

text \<open>The theorem at a concrete input, the worst case: insecure scheme, status 500, logs, no snippet.\<close>

theorem simulateAnalysis_score_witness:
  "statusCode \<lparr>url = ''http://shop.example'', statusCode = Some 500, responseTimeMs = Some 87,
       headers = Map.empty, htmlSnippet = None, fetchError = None\<rparr> \<noteq> Some 0 \<and>
   healthScore (simulateAnalysis
      \<lparr>url = ''http://shop.example'', statusCode = Some 500, responseTimeMs = Some 87,
       headers = Map.empty, htmlSnippet = None, fetchError = None\<rparr> ''ReferenceError'') = 15"
  using simulateAnalysis_score
    [of "\<lparr>url = ''http://shop.example'', statusCode = Some 500, responseTimeMs = Some 87,
          headers = Map.empty, htmlSnippet = None, fetchError = None\<rparr>" "''ReferenceError''"]
  by (simp add: startsWith_def)

text \<open>
  C1 as stated fails: a snippet that is present but empty (what the scanner returns for an
  empty body) costs 10 points, where the stated table deducts nothing and gives 100.
\<close>

theorem claimedScore_counterexample:
  "htmlSnippet \<lparr>url = ''https://ok.example'', statusCode = Some 200, responseTimeMs = Some 120,
      headers = Map.empty, htmlSnippet = Some [], fetchError = None\<rparr> \<noteq> None \<and>
   healthScore (simulateAnalysis
     \<lparr>url = ''https://ok.example'', statusCode = Some 200, responseTimeMs = Some 120,
      headers = Map.empty, htmlSnippet = Some [], fetchError = None\<rparr> []) = 90 \<and>
   claimedScore
     \<lparr>url = ''https://ok.example'', statusCode = Some 200, responseTimeMs = Some 120,
      headers = Map.empty, htmlSnippet = Some [], fetchError = None\<rparr> [] = 100"
  by (simp add: score_defs claimedScore_def)

text \<open>
  A status code of 0 is present and below 400, yet \<open>!metrics.statusCode\<close> holds for it and
  the 40 points of a server error are deducted.
\<close>

lemma status_zero_score:
  "healthScore (simulateAnalysis
     \<lparr>url = ''https://ok.example'', statusCode = Some 0, responseTimeMs = Some 120,
      headers = Map.empty, htmlSnippet = Some ''<html></html>'', fetchError = None\<rparr> []) = 60"
  by (simp add: score_defs)

text \<open>
  C7, amended. The deductions sum to 85 at most: the 40 points of an error status and the
  15 points of an absent status exclude each other. So the score lies between 15 and 100,
  the floor at 0 never changes it, and 15 is attained.
\<close>

theorem deducted_bounds:
  "15 \<le> deducted m L \<and> deducted m L \<le> 100 \<and>
   healthScore (simulateAnalysis m L) = deducted m L \<and>
   healthScore (simulateAnalysis
      \<lparr>url = ''http://old.example'', statusCode = Some 503, responseTimeMs = Some 40,
       headers = Map.empty, htmlSnippet = None, fetchError = None\<rparr> ''Uncaught'') = 15"
proof -
  have lo: "15 \<le> deducted m L"
    by (auto simp: deducted_def Let_def)
  have hi: "deducted m L \<le> 100"
    by (auto simp: deducted_def Let_def)
  have same: "healthScore (simulateAnalysis m L) = deducted m L"
    using lo by (simp add: simulateAnalysis_def score_def)
  have worst: "healthScore (simulateAnalysis
      \<lparr>url = ''http://old.example'', statusCode = Some 503, responseTimeMs = Some 40,
       headers = Map.empty, htmlSnippet = None, fetchError = None\<rparr> ''Uncaught'') = 15"
    by (simp add: score_defs)
  from lo hi same worst show ?thesis by blast
qed

text \<open>C7 as stated fails: no input reaches a deduction of 100, so the score is never 0.\<close>

theorem zero_score_counterexample:
  "\<not> (\<exists>m L. healthScore (simulateAnalysis m L) = 0)"
proof
  assume "\<exists>m L. healthScore (simulateAnalysis m L) = 0"
  then obtain m L where z: "healthScore (simulateAnalysis m L) = 0" by blast
  have "15 \<le> deducted m L" by (auto simp: deducted_def Let_def)
  then have "healthScore (simulateAnalysis m L) \<ge> 15"
    by (simp add: simulateAnalysis_def score_def)
  with z show False by simp
qed

text \<open>
  C10. The \<open>jsErrors\<close> field of the engine's report is never null: it is the failing-scripts
  record when the logs are not empty and the no-errors record when they are empty.
\<close>

theorem simulateAnalysis_jsErrors:
  "jsErrors (simulateAnalysis m L) =
     Some (if L = []
           then \<lparr>summary = ''No background errors detected.'',
                 details = [''Website code is running smoothly'']\<rparr>
           else \<lparr>summary = ''Some background scripts are failing.'',
                 details = [''A feature might be broken'', ''A file failed to load'']\<rparr>)
   \<and> jsErrors (simulateAnalysis m L) \<noteq> None"
  by (simp add: simulateAnalysis_def hasLogs_def failingScripts_def noErrors_def)

section \<open>The scanner\<close>

text \<open>
  C8. The normalised URL is the trimmed input when that begins, letter case aside, with
  \<open>http://\<close> or \<open>https://\<close>, and \<open>https://\<close> followed by the trimmed input otherwise. The
  trimmed input is the input without the white space on both sides. The stage has no
  error path: whatever the probe does, the scan resolves with the normalised URL.
\<close>

theorem normalizeUrl_spec:
  "normalizeUrl rawUrl =
     (if beginsWithCI (trim rawUrl) ''http://'' \<or> beginsWithCI (trim rawUrl) ''https://''
      then trim rawUrl else ''https://'' @ trim rawUrl)
   \<and> (\<exists>l r. rawUrl = l @ trim rawUrl @ r \<and> list_all isWhiteSpace l \<and> list_all isWhiteSpace r)
   \<and> (trim rawUrl \<noteq> [] \<longrightarrow>
        \<not> isWhiteSpace (hd (trim rawUrl)) \<and> \<not> isWhiteSpace (last (trim rawUrl)))
   \<and> (\<exists>m. scanWebsite rawUrl outcome = Inr m \<and> url m = normalizeUrl rawUrl)"
proof -
  have a: "normalizeUrl rawUrl =
     (if beginsWithCI (trim rawUrl) ''http://'' \<or> beginsWithCI (trim rawUrl) ''https://''
      then trim rawUrl else ''https://'' @ trim rawUrl)"
    by (simp add: normalizeUrl_def Let_def schemeTest_iff)
  have d: "\<exists>m. scanWebsite rawUrl outcome = Inr m \<and> url m = normalizeUrl rawUrl"
    by (auto simp: scanWebsite_def probe_def Let_def
        split: fetch_outcome.splits body_outcome.splits)
  from a trim_decompose[of rawUrl] trim_ends[of rawUrl] d show ?thesis by blast
qed

text \<open>The theorem at two inputs: one without a scheme, one with an upper-case scheme.\<close>

theorem normalizeUrl_spec_witness:
  "trim ''  example.com/shop  '' \<noteq> [] \<and>
   normalizeUrl ''  example.com/shop  '' = ''https://example.com/shop'' \<and>
   \<not> isWhiteSpace (hd (trim ''  example.com/shop  '')) \<and>
   normalizeUrl '' HTTP://example.com'' = ''HTTP://example.com''"
  using normalizeUrl_spec[of "''  example.com/shop  ''"] normalizeUrl_spec[of "'' HTTP://example.com''"]
  by (simp add: trim_def isWhiteSpace_def beginsWithCI_def canonicalize_def)

text \<open>
  C3, amended. The scan always resolves. When \<open>fetch\<close> or the reading of the body fails, it
  resolves with metrics that have no status code, no response time, no headers and no
  snippet, and whose \<open>fetchError\<close> is \<open>Connection Timeout\<close> when the error is the abort of the
  4000 ms timer, the error's message when that is not empty, and \<open>Network/CORS Error\<close> when
  the error has no message.
\<close>

theorem scanWebsite_failure:
  "scanWebsite rawUrl (FetchRejects e) =
     Inr \<lparr>url = normalizeUrl rawUrl, statusCode = None, responseTimeMs = None,
          headers = Map.empty, htmlSnippet = None,
          fetchError = Some (if name e = ''AbortError'' then ''Connection Timeout''
                             else if message e = [] then ''Network/CORS Error''
                             else message e)\<rparr>
   \<and> scanWebsite rawUrl
        (FetchResolves \<lparr>resp_status = st, resp_headers = hs, resp_text = BodyRejects e\<rparr> elapsed) =
     Inr \<lparr>url = normalizeUrl rawUrl, statusCode = None, responseTimeMs = None,
          headers = Map.empty, htmlSnippet = None,
          fetchError = Some (if name e = ''AbortError'' then ''Connection Timeout''
                             else if message e = [] then ''Network/CORS Error''
                             else message e)\<rparr>
   \<and> (\<exists>m. scanWebsite rawUrl outcome = Inr m)"
proof -
  have resolves: "\<exists>m. scanWebsite rawUrl outcome = Inr m"
    by (simp add: scanWebsite_def Let_def split: sum.splits)
  then show ?thesis
    by (simp add: scanWebsite_def probe_def Let_def)
qed

text \<open>
  C3 as stated fails: for an error without a message the \<open>fetchError\<close> is the fixed text
  \<open>Network/CORS Error\<close>, not the error's own (empty) description.
\<close>

theorem fetchError_counterexample:
  "scanWebsite ''example.com'' (FetchRejects \<lparr>name = ''TypeError'', message = []\<rparr>) =
     Inr \<lparr>url = ''https://example.com'', statusCode = None, responseTimeMs = None,
          headers = Map.empty, htmlSnippet = None,
          fetchError = Some ''Network/CORS Error''\<rparr>
   \<and> ''Network/CORS Error'' \<noteq> message \<lparr>name = ''TypeError'', message = []\<rparr>"
  by (simp add: scanWebsite_def probe_def normalizeUrl_def schemeTest_def trim_def
      isWhiteSpace_def canonicalize_def matched_def)

text \<open>
  C6, amended. In the metrics of every scan, the status code and the response time are
  present exactly when \<open>fetchError\<close> is absent. When \<open>fetchError\<close> is present the header map
  is empty. When it is absent the scan had a response, and the header map has no entry
  for the name \<open>__proto__\<close> and, for every other name, the value that the response's headers
  yield last for that name, or no entry when they yield none: so it may be empty.
\<close>

theorem scanWebsite_fields:
  assumes "scanWebsite rawUrl outcome = Inr m"
  shows "(fetchError m = None) = (statusCode m \<noteq> None)
       \<and> (fetchError m = None) = (responseTimeMs m \<noteq> None)
       \<and> (fetchError m \<noteq> None \<longrightarrow> headers m = Map.empty)
       \<and> (fetchError m = None \<longrightarrow>
            (\<exists>response elapsed. outcome = FetchResolves response elapsed \<and>
               headers m ''__proto__'' = None \<and>
               (\<forall>k. k \<noteq> ''__proto__'' \<longrightarrow>
                  headers m k = map_of (rev (resp_headers response)) k)))"
proof (cases outcome)
  case (FetchRejects e)
  with assms show ?thesis
    by (auto simp: scanWebsite_def probe_def Let_def)
next
  case (FetchResolves response elapsed)
  with assms show ?thesis
    by (cases "resp_text response")
      (auto simp: scanWebsite_def probe_def Let_def collectHeaders_lookup)
qed

text \<open>
  The theorem at a scan that the timer aborts and at a scan that succeeds, with a
  response that has a header named \<open>__proto__\<close>.
\<close>

theorem scanWebsite_fields_witness:
  "scanWebsite ''example.com''
      (FetchRejects \<lparr>name = ''AbortError'', message = ''The operation was aborted.''\<rparr>) =
     Inr \<lparr>url = ''https://example.com'', statusCode = None, responseTimeMs = None,
          headers = Map.empty, htmlSnippet = None,
          fetchError = Some ''Connection Timeout''\<rparr>
   \<and> headers \<lparr>url = ''https://example.com'', statusCode = None, responseTimeMs = None,
          headers = Map.empty, htmlSnippet = None,
          fetchError = Some ''Connection Timeout''\<rparr> = Map.empty
   \<and> scanWebsite ''https://example.com''
      (FetchResolves \<lparr>resp_status = 200,
                      resp_headers = [(''__proto__'', ''x''), (''content-type'', ''text/plain'')],
                      resp_text = BodyText ''ok''\<rparr> 42) =
     Inr \<lparr>url = ''https://example.com'', statusCode = Some 200, responseTimeMs = Some 42,
          headers = collectHeaders [(''__proto__'', ''x''), (''content-type'', ''text/plain'')],
          htmlSnippet = Some ''ok'', fetchError = None\<rparr>
   \<and> collectHeaders [(''__proto__'', ''x''), (''content-type'', ''text/plain'')] ''__proto__''
        = None
   \<and> collectHeaders [(''__proto__'', ''x''), (''content-type'', ''text/plain'')] ''content-type''
        = Some ''text/plain''"
proof -
  have f: "scanWebsite ''example.com''
      (FetchRejects \<lparr>name = ''AbortError'', message = ''The operation was aborted.''\<rparr>) =
     Inr \<lparr>url = ''https://example.com'', statusCode = None, responseTimeMs = None,
          headers = Map.empty, htmlSnippet = None,
          fetchError = Some ''Connection Timeout''\<rparr>"
    by (simp add: scanWebsite_def probe_def normalizeUrl_def schemeTest_def trim_def
        isWhiteSpace_def canonicalize_def matched_def)
  have g: "scanWebsite ''https://example.com''
      (FetchResolves \<lparr>resp_status = 200,
                      resp_headers = [(''__proto__'', ''x''), (''content-type'', ''text/plain'')],
                      resp_text = BodyText ''ok''\<rparr> 42) =
     Inr \<lparr>url = ''https://example.com'', statusCode = Some 200, responseTimeMs = Some 42,
          headers = collectHeaders [(''__proto__'', ''x''), (''content-type'', ''text/plain'')],
          htmlSnippet = Some ''ok'', fetchError = None\<rparr>"
    by (simp add: scanWebsite_def probe_def normalizeUrl_def schemeTest_def trim_def
        isWhiteSpace_def canonicalize_def matched_def extractSnippet_def headMatch_def
        bodyMatch_def headAt_def bodyAt_def substring0_def)
  from scanWebsite_fields[OF f] scanWebsite_fields[OF g] f g show ?thesis by simp
qed

text \<open>
  C6 as stated fails: a response without headers gives metrics with no \<open>fetchError\<close> and an
  empty header map.
\<close>

theorem empty_headers_counterexample:
  "scanWebsite ''https://example.com''
      (FetchResolves \<lparr>resp_status = 204, resp_headers = [], resp_text = BodyText []\<rparr> 31) =
     Inr \<lparr>url = ''https://example.com'', statusCode = Some 204, responseTimeMs = Some 31,
          headers = Map.empty, htmlSnippet = Some [], fetchError = None\<rparr>
   \<and> fetchError \<lparr>url = ''https://example.com'', statusCode = Some 204, responseTimeMs = Some 31,
          headers = Map.empty, htmlSnippet = Some [], fetchError = None\<rparr> = None"
  by (simp add: scanWebsite_def probe_def normalizeUrl_def schemeTest_def trim_def
      isWhiteSpace_def canonicalize_def matched_def extractSnippet_def headMatch_def
      bodyMatch_def headAt_def bodyAt_def substring0_def collectHeaders_def)

text \<open>
  C9, amended. When \<open>fetch\<close> resolves and the body is read (\<open>response.text()\<close> delivers
  it), the snippet of the metrics is a string, never null, and for an empty body it is the
  empty string. The scoring engine treats the
  empty string as it treats an absent snippet: the reports are equal, and the score is 10
  below that of the same metrics with a snippet that is not empty.
\<close>

theorem empty_snippet_scored_as_absent:
  "(\<exists>m. scanWebsite rawUrl
           (FetchResolves \<lparr>resp_status = st, resp_headers = hs, resp_text = BodyText text\<rparr>
              elapsed) = Inr m
        \<and> htmlSnippet m = Some (extractSnippet text) \<and> htmlSnippet m \<noteq> None)
   \<and> (\<exists>m. scanWebsite rawUrl
           (FetchResolves \<lparr>resp_status = st, resp_headers = hs, resp_text = BodyText []\<rparr>
              elapsed) = Inr m
        \<and> htmlSnippet m = Some [])
   \<and> simulateAnalysis (metrics\<lparr>htmlSnippet := Some []\<rparr>) L
       = simulateAnalysis (metrics\<lparr>htmlSnippet := None\<rparr>) L
   \<and> healthScore (simulateAnalysis (metrics\<lparr>htmlSnippet := Some []\<rparr>) L)
       = healthScore (simulateAnalysis (metrics\<lparr>htmlSnippet := Some (c # cs)\<rparr>) L) - 10"
proof -
  have a: "\<exists>m. scanWebsite rawUrl
           (FetchResolves \<lparr>resp_status = st, resp_headers = hs, resp_text = BodyText text\<rparr>
              elapsed) = Inr m
        \<and> htmlSnippet m = Some (extractSnippet text) \<and> htmlSnippet m \<noteq> None"
    by (simp add: scanWebsite_def probe_def Let_def)
  have e: "extractSnippet [] = []"
    by (simp add: extractSnippet_def headMatch_def bodyMatch_def headAt_def bodyAt_def
        substring0_def)
  have b: "\<exists>m. scanWebsite rawUrl
           (FetchResolves \<lparr>resp_status = st, resp_headers = hs, resp_text = BodyText []\<rparr>
              elapsed) = Inr m
        \<and> htmlSnippet m = Some []"
    by (simp add: scanWebsite_def probe_def Let_def e)
  have c: "simulateAnalysis (metrics\<lparr>htmlSnippet := Some []\<rparr>) L
       = simulateAnalysis (metrics\<lparr>htmlSnippet := None\<rparr>) L"
    by (simp add: score_defs snippetIncludes_def)
  have d: "healthScore (simulateAnalysis (metrics\<lparr>htmlSnippet := Some []\<rparr>) L)
       = healthScore (simulateAnalysis (metrics\<lparr>htmlSnippet := Some (c # cs)\<rparr>) L) - 10"
    by (auto simp: score_defs split: option.splits)
  from a b c d show ?thesis by blast
qed

text \<open>
  C9 as stated fails: \<open>fetch\<close> can resolve and the reading of the body fail after it; the
  \<open>catch\<close> block then returns metrics whose snippet is null.
\<close>

theorem unread_body_counterexample:
  "scanWebsite ''https://example.com''
      (FetchResolves
         \<lparr>resp_status = 200, resp_headers = [(''content-type'', ''text/html'')],
          resp_text = BodyRejects \<lparr>name = ''TypeError'', message = ''network error''\<rparr>\<rparr> 25) =
     Inr \<lparr>url = ''https://example.com'', statusCode = None, responseTimeMs = None,
          headers = Map.empty, htmlSnippet = None, fetchError = Some ''network error''\<rparr>
   \<and> htmlSnippet \<lparr>url = ''https://example.com'', statusCode = None, responseTimeMs = None,
          headers = Map.empty, htmlSnippet = None, fetchError = Some ''network error''\<rparr>
       = None"
  by (simp add: scanWebsite_def probe_def normalizeUrl_def schemeTest_def trim_def
      isWhiteSpace_def canonicalize_def matched_def)

text \<open>
  C5, amended. For every body text, let H be the block of the first \<open><head>...</head>\<close>
  region (tags included, letter case aside; the leftmost region and, there, the shortest),
  or nothing when the text has no such region, and let B be the first 1500 characters of
  the content of the first \<open><body ...>...</body>\<close> region, or nothing when there is none.
  The snippet is H followed by B when that is not empty, and the first 2000 characters of
  the text otherwise: so when neither region is found, and also when only a body region
  with no content is found. The snippet is always a string; for an empty body it is the
  empty string.
\<close>

theorem extractSnippet_spec:
  "extractSnippet text =
     (let h = (case headMatch text of None \<Rightarrow> [] | Some (blk, inner) \<Rightarrow> blk);
          b = (case bodyMatch text of None \<Rightarrow> [] | Some (blk, inner) \<Rightarrow> take 1500 inner)
      in if h @ b = [] then take 2000 text else h @ b)
   \<and> (headMatch text = None \<longrightarrow> (\<forall>pre blk inner. \<not> isHeadRegion text pre blk inner))
   \<and> (\<forall>blk inner. headMatch text = Some (blk, inner) \<longrightarrow>
         firstRegion (isHeadRegion text) blk inner)
   \<and> (bodyMatch text = None \<longrightarrow> (\<forall>pre blk inner. \<not> isBodyRegion text pre blk inner))
   \<and> (\<forall>blk inner. bodyMatch text = Some (blk, inner) \<longrightarrow>
         firstRegion (isBodyRegion text) blk inner)
   \<and> (headMatch text = None \<and> bodyMatch text = None \<longrightarrow> extractSnippet text = take 2000 text)
   \<and> (\<exists>m. scanWebsite rawUrl
           (FetchResolves \<lparr>resp_status = st, resp_headers = hs, resp_text = BodyText text\<rparr>
              elapsed) = Inr m
        \<and> htmlSnippet m = Some (extractSnippet text))
   \<and> extractSnippet [] = []"
proof -
  have a: "extractSnippet text =
     (let h = (case headMatch text of None \<Rightarrow> [] | Some (blk, inner) \<Rightarrow> blk);
          b = (case bodyMatch text of None \<Rightarrow> [] | Some (blk, inner) \<Rightarrow> take 1500 inner)
      in if h @ b = [] then take 2000 text else h @ b)"
    by (simp add: extractSnippet_def substring0_def Let_def split: option.splits)
  have b: "headMatch text = None \<longrightarrow> (\<forall>pre blk inner. \<not> isHeadRegion text pre blk inner)"
    using headMatch_None by blast
  have c: "\<forall>blk inner. headMatch text = Some (blk, inner) \<longrightarrow>
         firstRegion (isHeadRegion text) blk inner"
    unfolding firstRegion_def using headMatch_Some by blast
  have d: "bodyMatch text = None \<longrightarrow> (\<forall>pre blk inner. \<not> isBodyRegion text pre blk inner)"
    using bodyMatch_None by blast
  have e: "\<forall>blk inner. bodyMatch text = Some (blk, inner) \<longrightarrow>
         firstRegion (isBodyRegion text) blk inner"
    unfolding firstRegion_def using bodyMatch_Some by blast
  have f: "headMatch text = None \<and> bodyMatch text = None \<longrightarrow> extractSnippet text = take 2000 text"
    by (simp add: extractSnippet_def substring0_def)
  have g: "\<exists>m. scanWebsite rawUrl
           (FetchResolves \<lparr>resp_status = st, resp_headers = hs, resp_text = BodyText text\<rparr>
              elapsed) = Inr m
        \<and> htmlSnippet m = Some (extractSnippet text)"
    by (simp add: scanWebsite_def probe_def Let_def)
  have h: "extractSnippet [] = []"
    by (simp add: extractSnippet_def headMatch_def bodyMatch_def headAt_def bodyAt_def
        substring0_def)
  from a b c d e f g h show ?thesis by blast
qed

text \<open>
  The theorem at a page with both regions, at a text with neither, and at a page whose
  only region is a body without content.
\<close>

theorem extractSnippet_spec_witness:
  "headMatch ''<html><HEAD><title>Shop</title></head><body class=x>Hello</BODY></html>''
     = Some (''<HEAD><title>Shop</title></head>'', ''<title>Shop</title>'')
   \<and> firstRegion
        (isHeadRegion ''<html><HEAD><title>Shop</title></head><body class=x>Hello</BODY></html>'')
        ''<HEAD><title>Shop</title></head>'' ''<title>Shop</title>''
   \<and> bodyMatch ''<html><HEAD><title>Shop</title></head><body class=x>Hello</BODY></html>''
     = Some (''<body class=x>Hello</BODY>'', ''Hello'')
   \<and> firstRegion
        (isBodyRegion ''<html><HEAD><title>Shop</title></head><body class=x>Hello</BODY></html>'')
        ''<body class=x>Hello</BODY>'' ''Hello''
   \<and> extractSnippet ''<html><HEAD><title>Shop</title></head><body class=x>Hello</BODY></html>''
     = ''<HEAD><title>Shop</title></head>Hello''
   \<and> headMatch ''plain text, no markup'' = None
   \<and> bodyMatch ''plain text, no markup'' = None
   \<and> extractSnippet ''plain text, no markup'' = ''plain text, no markup''
   \<and> extractSnippet ''<body></body>'' = ''<body></body>''"
proof -
  let ?T = "''<html><HEAD><title>Shop</title></head><body class=x>Hello</BODY></html>''"
  let ?P = "''plain text, no markup''"
  have hm: "headMatch ?T = Some (''<HEAD><title>Shop</title></head>'', ''<title>Shop</title>'')"
    by (simp add: headMatch_def headAt_def canonicalize_def)
  have bm: "bodyMatch ?T = Some (''<body class=x>Hello</BODY>'', ''Hello'')"
    by (simp add: bodyMatch_def bodyAt_def canonicalize_def)
  have hn: "headMatch ?P = None"
    by (simp add: headMatch_def headAt_def canonicalize_def)
  have bn: "bodyMatch ?P = None"
    by (simp add: bodyMatch_def bodyAt_def canonicalize_def)
  have hb: "headMatch ''<body></body>'' = None"
    by (simp add: headMatch_def headAt_def canonicalize_def)
  have bb: "bodyMatch ''<body></body>'' = Some (''<body></body>'', [])"
    by (simp add: bodyMatch_def bodyAt_def canonicalize_def)
  from extractSnippet_spec[of ?T] hm bm
  have t: "firstRegion (isHeadRegion ?T) ''<HEAD><title>Shop</title></head>'' ''<title>Shop</title>''"
    "firstRegion (isBodyRegion ?T) ''<body class=x>Hello</BODY>'' ''Hello''"
    "extractSnippet ?T = ''<HEAD><title>Shop</title></head>Hello''"
    by simp_all
  from extractSnippet_spec[of ?P] hn bn have p: "extractSnippet ?P = ?P"
    by simp
  from extractSnippet_spec[of "''<body></body>''"] hb bb
  have q: "extractSnippet ''<body></body>'' = ''<body></body>''"
    by simp
  from hm bm hn bn t p q show ?thesis by blast
qed

text \<open>
  C5 as stated fails: for an empty body the scan returns the empty string as snippet, not
  an absent one.
\<close>

theorem empty_body_counterexample:
  "scanWebsite ''https://empty.example''
      (FetchResolves \<lparr>resp_status = 200, resp_headers = [(''content-length'', ''0'')],
                      resp_text = BodyText []\<rparr> 18) =
     Inr \<lparr>url = ''https://empty.example'', statusCode = Some 200, responseTimeMs = Some 18,
          headers = collectHeaders [(''content-length'', ''0'')],
          htmlSnippet = Some [], fetchError = None\<rparr>
   \<and> htmlSnippet \<lparr>url = ''https://empty.example'', statusCode = Some 200,
          responseTimeMs = Some 18, headers = collectHeaders [(''content-length'', ''0'')],
          htmlSnippet = Some [], fetchError = None\<rparr> \<noteq> None"
  by (simp add: scanWebsite_def probe_def normalizeUrl_def schemeTest_def trim_def
      isWhiteSpace_def canonicalize_def matched_def extractSnippet_def headMatch_def
      bodyMatch_def headAt_def bodyAt_def substring0_def)

section \<open>The orchestrator\<close>

text \<open>
  C2. Whatever the metrics and the logs, the orchestrator resolves with the report of the
  scoring engine when no credential is configured, when the remote call rejects, when the
  timer fires first, when the payload is empty and when the payload fails to parse. That
  report has a score between 0 and 100, populated \<open>seo\<close>, \<open>accessibility\<close>, \<open>privacy\<close> and
  \<open>recommendations\<close> fields, and the shape of \<open>AIAnalysis\<close>. All of this holds of the value
  that is returned: its \<open>healthScore\<close> is a number between 0 and 100, its narrative fields
  are texts and lists that are not empty, and read back field by field it is the engine's
  report.
\<close>

theorem analyzeWithGemini_fallback:
  "analyzeWithGemini parse None outcome m L = Inr (analysisJson (simulateAnalysis m L))
   \<and> analyzeWithGemini parse (Some []) outcome m L = Inr (analysisJson (simulateAnalysis m L))
   \<and> analyzeWithGemini parse apiKey (ApiRejects reason) m L
        = Inr (analysisJson (simulateAnalysis m L))
   \<and> analyzeWithGemini parse apiKey TimeoutFirst m L
        = Inr (analysisJson (simulateAnalysis m L))
   \<and> analyzeWithGemini parse apiKey (ApiFulfils None) m L
        = Inr (analysisJson (simulateAnalysis m L))
   \<and> analyzeWithGemini parse apiKey (ApiFulfils (Some \<lparr>ai_text = None\<rparr>)) m L
        = Inr (analysisJson (simulateAnalysis m L))
   \<and> analyzeWithGemini parse apiKey (ApiFulfils (Some \<lparr>ai_text = Some []\<rparr>)) m L
        = Inr (analysisJson (simulateAnalysis m L))
   \<and> (parse t = None \<longrightarrow>
        analyzeWithGemini parse apiKey (ApiFulfils (Some \<lparr>ai_text = Some t\<rparr>)) m L
          = Inr (analysisJson (simulateAnalysis m L)))
   \<and> 0 \<le> healthScore (simulateAnalysis m L) \<and> healthScore (simulateAnalysis m L) \<le> 100
   \<and> populated (simulateAnalysis m L)
   \<and> isAIAnalysis (analysisJson (simulateAnalysis m L))
   \<and> scoreInRange (analysisJson (simulateAnalysis m L))
   \<and> populatedJson (analysisJson (simulateAnalysis m L))
   \<and> readAnalysis (analysisJson (simulateAnalysis m L)) = Some (simulateAnalysis m L)"
proof -
  have paths:
    "analyzeWithGemini parse None outcome m L = Inr (analysisJson (simulateAnalysis m L))"
    "analyzeWithGemini parse (Some []) outcome m L = Inr (analysisJson (simulateAnalysis m L))"
    "analyzeWithGemini parse apiKey (ApiRejects reason) m L
        = Inr (analysisJson (simulateAnalysis m L))"
    "analyzeWithGemini parse apiKey TimeoutFirst m L
        = Inr (analysisJson (simulateAnalysis m L))"
    "analyzeWithGemini parse apiKey (ApiFulfils None) m L
        = Inr (analysisJson (simulateAnalysis m L))"
    "analyzeWithGemini parse apiKey (ApiFulfils (Some \<lparr>ai_text = None\<rparr>)) m L
        = Inr (analysisJson (simulateAnalysis m L))"
    "analyzeWithGemini parse apiKey (ApiFulfils (Some \<lparr>ai_text = Some []\<rparr>)) m L
        = Inr (analysisJson (simulateAnalysis m L))"
    by (simp_all add: analyzeWithGemini_def remoteAttempt_def falsyString_def)
  have unparsed: "parse t = None \<longrightarrow>
        analyzeWithGemini parse apiKey (ApiFulfils (Some \<lparr>ai_text = Some t\<rparr>)) m L
          = Inr (analysisJson (simulateAnalysis m L))"
    by (simp add: analyzeWithGemini_def remoteAttempt_def)
  have "deducted m L \<le> 100"
    by (auto simp: deducted_def Let_def)
  then have range: "0 \<le> healthScore (simulateAnalysis m L)"
      "healthScore (simulateAnalysis m L) \<le> 100"
    by (simp_all add: simulateAnalysis_def score_def)
  have pop: "populated (simulateAnalysis m L)"
    by (simp add: populated_def populatedFinding_def simulateAnalysis_def)
  have jrange: "scoreInRange (analysisJson (simulateAnalysis m L))"
    using range by (simp add: scoreInRange_analysisJson)
  have jpop: "populatedJson (analysisJson (simulateAnalysis m L))"
    using pop by (simp add: populatedJson_analysisJson)
  from paths unparsed range pop analysisJson_shape[of "simulateAnalysis m L"] jrange jpop
    readAnalysis_analysisJson[of "simulateAnalysis m L"]
  show ?thesis by blast
qed

text \<open>
  The theorem at a payload that is a page of markup, which no JSON parser accepts: here
  the parser is one that accepts the text of the empty object only.
\<close>

theorem analyzeWithGemini_fallback_witness:
  "(\<lambda>t. if t = ''{}'' then Some (JObj []) else None) ''<!DOCTYPE html>'' = None
   \<and> analyzeWithGemini (\<lambda>t. if t = ''{}'' then Some (JObj []) else None) (Some ''secret'')
        (ApiFulfils (Some \<lparr>ai_text = Some ''<!DOCTYPE html>''\<rparr>))
        \<lparr>url = ''https://ok.example'', statusCode = Some 200, responseTimeMs = Some 64,
         headers = Map.empty, htmlSnippet = Some ''<html></html>'', fetchError = None\<rparr> []
      = Inr (analysisJson (simulateAnalysis
        \<lparr>url = ''https://ok.example'', statusCode = Some 200, responseTimeMs = Some 64,
         headers = Map.empty, htmlSnippet = Some ''<html></html>'', fetchError = None\<rparr> []))
   \<and> scoreInRange (analysisJson (simulateAnalysis
        \<lparr>url = ''https://ok.example'', statusCode = Some 200, responseTimeMs = Some 64,
         headers = Map.empty, htmlSnippet = Some ''<html></html>'', fetchError = None\<rparr> []))
   \<and> populatedJson (analysisJson (simulateAnalysis
        \<lparr>url = ''https://ok.example'', statusCode = Some 200, responseTimeMs = Some 64,
         headers = Map.empty, htmlSnippet = Some ''<html></html>'', fetchError = None\<rparr> []))"
  using analyzeWithGemini_fallback
    [of "\<lambda>t. if t = ''{}'' then Some (JObj []) else None" _
        "\<lparr>url = ''https://ok.example'', statusCode = Some 200, responseTimeMs = Some 64,
          headers = Map.empty, htmlSnippet = Some ''<html></html>'', fetchError = None\<rparr>"
        "[]" "Some ''secret''" _ "''<!DOCTYPE html>''"]
  by simp

text \<open>
  C4, amended. The orchestrator returns the parsed payload of the remote call whenever a
  credential is configured, the remote call wins the race, and its payload is a text that
  is not empty and that parses; the parsed value is returned as it is, whatever its shape.
  In every other case the orchestrator returns the report of the scoring engine on the
  same metrics and logs.
\<close>

theorem analyzeWithGemini_remote:
  "(\<not> falsyString apiKey \<and> t \<noteq> [] \<and> parse t = Some v \<longrightarrow>
      analyzeWithGemini parse apiKey (ApiFulfils (Some \<lparr>ai_text = Some t\<rparr>)) m L = Inr v)
   \<and> ((\<nexists>t' v'. \<not> falsyString apiKey \<and> outcome = ApiFulfils (Some \<lparr>ai_text = Some t'\<rparr>) \<and>
               t' \<noteq> [] \<and> parse t' = Some v') \<longrightarrow>
      analyzeWithGemini parse apiKey outcome m L = Inr (analysisJson (simulateAnalysis m L)))"
proof -
  have a: "\<not> falsyString apiKey \<and> t \<noteq> [] \<and> parse t = Some v \<longrightarrow>
      analyzeWithGemini parse apiKey (ApiFulfils (Some \<lparr>ai_text = Some t\<rparr>)) m L = Inr v"
    by (simp add: analyzeWithGemini_def remoteAttempt_def)
  have b: "analyzeWithGemini parse apiKey outcome m L = Inr (analysisJson (simulateAnalysis m L))"
    if none: "\<nexists>t' v'. \<not> falsyString apiKey \<and> outcome = ApiFulfils (Some \<lparr>ai_text = Some t'\<rparr>) \<and>
               t' \<noteq> [] \<and> parse t' = Some v'"
  proof (cases "falsyString apiKey")
    case True
    then show ?thesis by (simp add: analyzeWithGemini_def)
  next
    case False
    show ?thesis
    proof (cases "remoteAttempt parse outcome")
      case (Inl e)
      then show ?thesis by (simp add: analyzeWithGemini_def)
    next
      case (Inr v')
      then obtain r t' where "outcome = ApiFulfils (Some r)" "ai_text r = Some t'" "t' \<noteq> []"
          "parse t' = Some v'"
        by (auto simp: remoteAttempt_def
            split: race_outcome.splits option.splits if_splits)
      moreover from \<open>ai_text r = Some t'\<close> have "r = \<lparr>ai_text = Some t'\<rparr>" by (cases r) simp
      ultimately show ?thesis using none False by blast
    qed
  qed
  from a b show ?thesis by blast
qed

text \<open>
  The theorem at a payload that parses, the text of the empty object, and at a race that
  the timer wins.
\<close>

theorem analyzeWithGemini_remote_witness:
  "\<not> falsyString (Some ''secret'') \<and> ''{}'' \<noteq> []
   \<and> (\<lambda>t. if t = ''{}'' then Some (JObj []) else None) ''{}'' = Some (JObj [])
   \<and> analyzeWithGemini (\<lambda>t. if t = ''{}'' then Some (JObj []) else None) (Some ''secret'')
        (ApiFulfils (Some \<lparr>ai_text = Some ''{}''\<rparr>))
        \<lparr>url = ''https://ok.example'', statusCode = Some 200, responseTimeMs = Some 64,
         headers = Map.empty, htmlSnippet = Some ''<html></html>'', fetchError = None\<rparr> []
      = Inr (JObj [])
   \<and> analyzeWithGemini (\<lambda>t. if t = ''{}'' then Some (JObj []) else None) (Some ''secret'')
        TimeoutFirst
        \<lparr>url = ''https://ok.example'', statusCode = Some 200, responseTimeMs = Some 64,
         headers = Map.empty, htmlSnippet = Some ''<html></html>'', fetchError = None\<rparr> []
      = Inr (analysisJson (simulateAnalysis
        \<lparr>url = ''https://ok.example'', statusCode = Some 200, responseTimeMs = Some 64,
         headers = Map.empty, htmlSnippet = Some ''<html></html>'', fetchError = None\<rparr> []))"
  using analyzeWithGemini_remote
    [of "Some ''secret''" "''{}''" "\<lambda>t. if t = ''{}'' then Some (JObj []) else None" "JObj []"
        "\<lparr>url = ''https://ok.example'', statusCode = Some 200, responseTimeMs = Some 64,
          headers = Map.empty, htmlSnippet = Some ''<html></html>'', fetchError = None\<rparr>"
        "[]" TimeoutFirst]
  by (simp add: falsyString_def)

text \<open>
  C4 as stated fails: a payload that parses is returned without a look at its shape. The
  text \<open>{}\<close> parses to the empty object, which is returned, has not the shape of
  \<open>AIAnalysis\<close> and is not the report of the scoring engine.
\<close>

theorem unchecked_payload_counterexample:
  "analyzeWithGemini (\<lambda>t. if t = ''{}'' then Some (JObj []) else None) (Some ''secret'')
        (ApiFulfils (Some \<lparr>ai_text = Some ''{}''\<rparr>))
        \<lparr>url = ''https://ok.example'', statusCode = Some 200, responseTimeMs = Some 64,
         headers = Map.empty, htmlSnippet = Some ''<html></html>'', fetchError = None\<rparr> []
      = Inr (JObj [])
   \<and> \<not> isAIAnalysis (JObj [])
   \<and> JObj [] \<noteq> analysisJson (simulateAnalysis
        \<lparr>url = ''https://ok.example'', statusCode = Some 200, responseTimeMs = Some 64,
         headers = Map.empty, htmlSnippet = Some ''<html></html>'', fetchError = None\<rparr> [])"
  by (simp add: analyzeWithGemini_def remoteAttempt_def falsyString_def isAIAnalysis_def
      analysisJson_def)

end
